theory Spec2Isabelle
  imports
    Main
    "HOL-Library.Char_ord"
    "HOL-Library.List_Lexorder"
    "HOL-Library.Product_Lexorder"
    "HOL-Library.Multiset"
begin

section \<open>JavaScript values, rows and responses\<close>

text \<open>
  The user-account service consists of the controller module (\<^verbatim>\<open>userController\<close>, in
  \<^verbatim>\<open>src/index.js\<close>) and the authentication middleware (\<^verbatim>\<open>protect\<close>). Strings are lists of
  code units below 256. JavaScript objects (result rows of a query, token payloads,
  response bodies) are association lists from property names to values; reading a
  property that is not there gives \<open>Undefined\<close>. \<open>Num\<close> is an integer number that JavaScript
  prints as its decimal numeral (one below \<open>10 ^ 21\<close> in magnitude). \<open>Other b s\<close> stands for
  any value that a request can carry and that is none of the others (a boolean, a number
  that is not such an integer): all the code observes of it is whether it is truthy,
  \<open>b\<close>, and the string it converts to, \<open>s\<close>.
\<close>

datatype val =
    Undefined
  | Null
  | Num int
  | Str string
  | Arr "val list"
  | Obj "(string \<times> val) list"
  | Other bool string

type_synonym obj = "(string \<times> val) list"

definition fld :: "obj \<Rightarrow> string \<Rightarrow> val" where
  "fld ob k = (case map_of ob k of None \<Rightarrow> Undefined | Some v \<Rightarrow> v)"

text \<open>A row of table \<^verbatim>\<open>users\<close>. Column \<^verbatim>\<open>id\<close> is the field \<open>id_col\<close>; timestamps are integers.\<close>

record user_row =
  id_col :: nat
  first_name :: string
  last_name :: string
  email :: string
  password_hash :: string
  job_title :: "string option"
  company :: "string option"
  last_login_date :: "int option"
  registration_date :: int
  status :: string

definition opt_str :: "string option \<Rightarrow> val" where
  "opt_str s = (case s of None \<Rightarrow> Null | Some t \<Rightarrow> Str t)"

definition opt_num :: "int option \<Rightarrow> val" where
  "opt_num n = (case n of None \<Rightarrow> Null | Some t \<Rightarrow> Num t)"

text \<open>The value of a named column in a row.\<close>

definition col :: "string \<Rightarrow> user_row \<Rightarrow> val" where
  "col c r =
    (if c = ''id'' then Num (int (id_col r))
     else if c = ''first_name'' then Str (first_name r)
     else if c = ''last_name'' then Str (last_name r)
     else if c = ''email'' then Str (email r)
     else if c = ''password_hash'' then Str (password_hash r)
     else if c = ''job_title'' then opt_str (job_title r)
     else if c = ''company'' then opt_str (company r)
     else if c = ''last_login_date'' then opt_num (last_login_date r)
     else if c = ''registration_date'' then Num (registration_date r)
     else if c = ''status'' then Str (status r)
     else Undefined)"

text \<open>\<^verbatim>\<open>SELECT c1, ..., cn\<close>: the object a query returns for a row.\<close>

definition select :: "string list \<Rightarrow> user_row \<Rightarrow> obj" where
  "select cols r = map (\<lambda>c. (c, col c r)) cols"

record response =
  status_code :: nat
  body :: obj

definition respond :: "nat \<Rightarrow> obj \<Rightarrow> response" where
  "respond code b = \<lparr>status_code = code, body = b\<rparr>"

text \<open>An \<^verbatim>\<open>Error\<close> that is thrown: its message and its \<^verbatim>\<open>statusCode\<close>, if it has one.\<close>

record js_error =
  err_message :: string
  statusCode :: "nat option"

section \<open>Connections and transactions\<close>

text \<open>
  The committed table, the auto-increment counter, the view of the open transaction
  (if any), and the calls made on the pool and the connection, in order. One request
  runs at a time. Releasing a connection ends nothing: a transaction that was neither
  committed nor rolled back stays open on it.
\<close>

datatype event = GetConnection | BeginTransaction | Commit | Rollback | Release

record world =
  store :: "user_row list"
  next_id :: nat
  pending :: "user_row list option"
  trace :: "event list"

definition getConnection :: "world \<Rightarrow> world" where
  "getConnection w = w\<lparr>trace := trace w @ [GetConnection]\<rparr>"

definition view :: "world \<Rightarrow> user_row list" where
  "view w = (case pending w of None \<Rightarrow> store w | Some t \<Rightarrow> t)"

text \<open>Starting a transaction commits the one that is still open on the connection.\<close>

definition beginTransaction :: "world \<Rightarrow> world" where
  "beginTransaction w =
     w\<lparr>store := view w, pending := Some (view w), trace := trace w @ [BeginTransaction]\<rparr>"

definition commit :: "world \<Rightarrow> world" where
  "commit w = w\<lparr>store := (case pending w of None \<Rightarrow> store w | Some t \<Rightarrow> t),
                pending := None, trace := trace w @ [Commit]\<rparr>"

definition rollback :: "world \<Rightarrow> world" where
  "rollback w = w\<lparr>pending := None, trace := trace w @ [Rollback]\<rparr>"

definition release :: "world \<Rightarrow> world" where
  "release w = w\<lparr>trace := trace w @ [Release]\<rparr>"

definition write_table :: "user_row list \<Rightarrow> world \<Rightarrow> world" where
  "write_table t w = (case pending w of None \<Rightarrow> w\<lparr>store := t\<rparr> | Some _ \<Rightarrow> w\<lparr>pending := Some t\<rparr>)"

section \<open>External capabilities\<close>

text \<open>
  What the service takes from its libraries and its environment: \<^verbatim>\<open>bcrypt.hash\<close> and
  \<^verbatim>\<open>bcrypt.compare\<close> on strings, and the message of the error \<^verbatim>\<open>bcrypt.hash\<close> throws for
  anything else; the encoding and decoding of signed tokens under \<^verbatim>\<open>JWT_SECRET\<close>;
  \<^verbatim>\<open>JWT_EXPIRES_IN\<close> in seconds; the clock in seconds; the database's
  \<^verbatim>\<open>CURRENT_TIMESTAMP\<close>; \<^verbatim>\<open>Date.prototype.toString\<close> on a time value in milliseconds; the
  text the database driver binds to a placeholder for a value that is not a string
  (\<open>None\<close> when it refuses the value), and the message of the error the driver or the
  database throws.
\<close>

record caps =
  bcrypt_hash :: "string \<Rightarrow> string"
  bcrypt_compare :: "string \<Rightarrow> string \<Rightarrow> bool"
  bcrypt_message :: string
  jwt_encode :: "obj \<Rightarrow> string"
  jwt_decode :: "string \<Rightarrow> obj option"
  JWT_EXPIRES_IN :: "int option"
  clock :: int
  CURRENT_TIMESTAMP :: int
  Date_toString :: "int \<Rightarrow> string"
  driver_text :: "val \<Rightarrow> string option"
  driver_message :: string

section \<open>String helpers of the JavaScript runtime\<close>

text \<open>
  Case mapping of the letters \<^verbatim>\<open>a\<close> to \<^verbatim>\<open>z\<close>. The other code units below 256 are left as
  they are: none of them maps to an ASCII letter, and the source compares the mapped
  strings with ASCII words only.
\<close>

definition upper_char :: "char \<Rightarrow> char" where
  "upper_char c =
    (case map_of (zip ''abcdefghijklmnopqrstuvwxyz'' ''ABCDEFGHIJKLMNOPQRSTUVWXYZ'') c of
       None \<Rightarrow> c | Some u \<Rightarrow> u)"

definition lower_char :: "char \<Rightarrow> char" where
  "lower_char c =
    (case map_of (zip ''ABCDEFGHIJKLMNOPQRSTUVWXYZ'' ''abcdefghijklmnopqrstuvwxyz'') c of
       None \<Rightarrow> c | Some u \<Rightarrow> u)"

definition toUpperCase :: "string \<Rightarrow> string" where
  "toUpperCase s = map upper_char s"

definition toLowerCase :: "string \<Rightarrow> string" where
  "toLowerCase s = map lower_char s"

definition startsWith :: "string \<Rightarrow> string \<Rightarrow> bool" where
  "startsWith s p = (take (length p) s = p)"

text \<open>\<^verbatim>\<open>s.split(c)\<close>: never empty; \<^verbatim>\<open>xs[i]\<close> is \<^verbatim>\<open>undefined\<close> out of range.\<close>

fun split_on :: "char \<Rightarrow> string \<Rightarrow> string list" where
  "split_on c [] = [[]]"
| "split_on c (x # xs) =
     (if x = c then [] # split_on c xs
      else (case split_on c xs of [] \<Rightarrow> [[x]] | y # ys \<Rightarrow> (x # y) # ys))"

definition at_index :: "'a list \<Rightarrow> nat \<Rightarrow> 'a option" where
  "at_index xs i = (if i < length xs then Some (xs ! i) else None)"

text \<open>White space as \<^verbatim>\<open>\s\<close> and \<^verbatim>\<open>parseInt\<close> see it, among the code units below 256.\<close>

definition is_space :: "char \<Rightarrow> bool" where
  "is_space c = (c \<in> set [CHR 0x09, CHR 0x0A, CHR 0x0B, CHR 0x0C, CHR 0x0D, CHR 0x20, CHR 0xA0])"

definition is_digit :: "char \<Rightarrow> bool" where
  "is_digit c = (c \<in> set ''0123456789'')"

definition digit_val :: "char \<Rightarrow> nat" where
  "digit_val c = (case map_of (zip ''0123456789'' [0, 1, 2, 3, 4, 5, 6, 7, 8, 9]) c of
                    None \<Rightarrow> 0 | Some d \<Rightarrow> d)"

text \<open>The integer that a run of decimal digits writes.\<close>

definition digits_val :: "string \<Rightarrow> nat" where
  "digits_val ds = foldl (\<lambda>a c. 10 * a + digit_val c) 0 ds"

function show_nat :: "nat \<Rightarrow> string" where
  "show_nat n =
     (if n < 10 then [''0123456789'' ! n]
      else show_nat (n div 10) @ [''0123456789'' ! (n mod 10)])"
  by pat_completeness auto
termination
  by (relation "measure id") auto

declare show_nat.simps [simp del]

section \<open>JavaScript numbers\<close>

text \<open>
  The numbers \<^verbatim>\<open>parseInt\<close> can return: \<^verbatim>\<open>NaN\<close>, an integer that a double represents, or an
  infinity. \<open>to_number n\<close> is the double nearest to the integer \<open>n\<close>, ties going to the even
  significand of 53 bits; from \<open>2 ^ 1024\<close> on the result is \<^verbatim>\<open>Infinity\<close>. \<open>shift_of n\<close> is
  the number of low bits of \<open>n\<close> that do not fit the significand.
\<close>

datatype number = NaN | Finite int | Infinity | NegInfinity

function shift_of :: "nat \<Rightarrow> nat" where
  "shift_of n = (if n < 2 ^ 53 then 0 else Suc (shift_of (n div 2)))"
  by pat_completeness auto
termination
  by (relation "measure id") auto

declare shift_of.simps [simp del]

definition to_number :: "nat \<Rightarrow> number" where
  "to_number n =
    (let e = shift_of n;
         q = n div 2 ^ e;
         r = n mod 2 ^ e;
         q' = (if 2 ^ e < 2 * r \<or> (2 * r = 2 ^ e \<and> odd q) then q + 1 else q)
     in if 2 ^ 1024 \<le> q' * 2 ^ e then Infinity else Finite (int (q' * 2 ^ e)))"

definition negate :: "number \<Rightarrow> number" where
  "negate x = (case x of NaN \<Rightarrow> NaN | Finite k \<Rightarrow> Finite (- k)
               | Infinity \<Rightarrow> NegInfinity | NegInfinity \<Rightarrow> Infinity)"

text \<open>\<^verbatim>\<open>!isNaN(id) && id > 0\<close>.\<close>

definition positive :: "number \<Rightarrow> bool" where
  "positive x = (case x of NaN \<Rightarrow> False | Finite k \<Rightarrow> 0 < k
                 | Infinity \<Rightarrow> True | NegInfinity \<Rightarrow> False)"

text \<open>
  \<^verbatim>\<open>parseInt(s, 10)\<close>: leading white space is skipped, one sign is read, then the longest
  run of decimal digits, whose integer is rounded to a number; no digit gives \<^verbatim>\<open>NaN\<close>.
\<close>

definition parseInt :: "string \<Rightarrow> number" where
  "parseInt s =
    (let t = dropWhile is_space s;
         neg = (t \<noteq> [] \<and> hd t = CHR ''-'');
         u = (if t \<noteq> [] \<and> (hd t = CHR ''-'' \<or> hd t = CHR ''+'') then tl t else t);
         ds = takeWhile is_digit u
     in if ds = [] then NaN
        else if neg then negate (to_number (digits_val ds)) else to_number (digits_val ds))"

section \<open>Values of a request\<close>

text \<open>
  What JavaScript makes of a value where the code tests it (\<^verbatim>\<open>!v\<close>, \<^verbatim>\<open>v || d\<close>, \<^verbatim>\<open>v && e\<close>) and
  where it converts it to a string (the pattern test, \<^verbatim>\<open>parseInt\<close>). An array converts to
  its elements' strings joined by commas, \<^verbatim>\<open>null\<close> and \<^verbatim>\<open>undefined\<close> elements giving the
  empty string.
\<close>

fun truthy :: "val \<Rightarrow> bool" where
  "truthy Undefined = False"
| "truthy Null = False"
| "truthy (Num n) = (n \<noteq> 0)"
| "truthy (Str s) = (s \<noteq> [])"
| "truthy (Arr vs) = True"
| "truthy (Obj kvs) = True"
| "truthy (Other b s) = b"

fun join_comma :: "string list \<Rightarrow> string" where
  "join_comma [] = []"
| "join_comma [x] = x"
| "join_comma (x # y # zs) = x @ '','' @ join_comma (y # zs)"

fun to_string :: "val \<Rightarrow> string" where
  "to_string Undefined = ''undefined''"
| "to_string Null = ''null''"
| "to_string (Num n) = (if n < 0 then CHR ''-'' # show_nat (nat (- n)) else show_nat (nat n))"
| "to_string (Str s) = s"
| "to_string (Arr vs) =
     join_comma (map (\<lambda>v. if v = Null \<or> v = Undefined then [] else to_string v) vs)"
| "to_string (Obj kvs) = ''[object Object]''"
| "to_string (Other b s) = s"

text \<open>
  The text bound to a placeholder of a statement: a string is bound as it is, any other
  value as the driver decides.
\<close>

definition sql_text :: "caps \<Rightarrow> val \<Rightarrow> string option" where
  "sql_text cp v = (case v of Str s \<Rightarrow> Some s | _ \<Rightarrow> driver_text cp v)"

definition driver_error :: "caps \<Rightarrow> js_error" where
  "driver_error cp = \<lparr>err_message = driver_message cp, statusCode = None\<rparr>"

section \<open>Validation helpers\<close>

text \<open>
  A request body maps field names to values, \<open>Undefined\<close> for a field that is not there.
  A helper that throws returns the error.
\<close>

type_synonym req_body = "string \<Rightarrow> val"

definition no_fields :: req_body where
  "no_fields = (\<lambda>field. Undefined)"

fun ensureRequiredFieldsPresent :: "req_body \<Rightarrow> string list \<Rightarrow> js_error option" where
  "ensureRequiredFieldsPresent b [] = None"
| "ensureRequiredFieldsPresent b (field # more_fields) =
     (if \<not> truthy (b field)
      then Some \<lparr>err_message = ''Please provide '' @ field @ ''.'', statusCode = Some 400\<rparr>
      else ensureRequiredFieldsPresent b more_fields)"

text \<open>
  \<^verbatim>\<open>/^[^\s@]+@[^\s@]+\.[^\s@]+$/\<close>: no white space, exactly one \<^verbatim>\<open>@\<close>, something before
  it, and after it a dot that is neither the first nor the last character. The test
  converts its argument to a string.
\<close>

definition emailRegex_test :: "string \<Rightarrow> bool" where
  "emailRegex_test e =
    (let local_part = takeWhile (\<lambda>c. c \<noteq> CHR ''@'') e;
         rest = dropWhile (\<lambda>c. c \<noteq> CHR ''@'') e
     in local_part \<noteq> [] \<and> rest \<noteq> [] \<and>
        list_all (\<lambda>c. \<not> is_space c) e \<and>
        CHR ''@'' \<notin> set (tl rest) \<and>
        CHR ''.'' \<in> set (butlast (tl (tl rest))))"

definition validateEmailFormat :: "val \<Rightarrow> js_error option" where
  "validateEmailFormat v =
    (if \<not> emailRegex_test (to_string v)
     then Some \<lparr>err_message = ''Invalid email format.'', statusCode = Some 400\<rparr>
     else None)"

section \<open>Queries\<close>

text \<open>\<^verbatim>\<open>WHERE id = ?\<close> with a bound JavaScript value: a number matches the row of that id.\<close>

definition id_is :: "val \<Rightarrow> user_row \<Rightarrow> bool" where
  "id_is v r = (v = Num (int (id_col r)))"

definition checkEmailAvailability :: "string \<Rightarrow> user_row list \<Rightarrow> js_error option" where
  "checkEmailAvailability e t =
    (if length (filter (\<lambda>r. email r = e) t) > 0
     then Some \<lparr>err_message = ''Email already registered.'', statusCode = Some 409\<rparr>
     else None)"

definition loginColumns :: "string list" where
  "loginColumns = [''id'', ''first_name'', ''last_name'', ''email'', ''password_hash'', ''status'']"

definition findUserByEmailInDB :: "string \<Rightarrow> user_row list \<Rightarrow> obj option" where
  "findUserByEmailInDB e t =
    (case filter (\<lambda>r. email r = e) t of
       [] \<Rightarrow> None
     | r # _ \<Rightarrow> Some (select loginColumns r))"

definition updateUserLastLoginDate :: "val \<Rightarrow> int \<Rightarrow> user_row list \<Rightarrow> user_row list" where
  "updateUserLastLoginDate userId now t =
     map (\<lambda>r. if id_is userId r then r\<lparr>last_login_date := Some now\<rparr> else r) t"

section \<open>Tokens\<close>

text \<open>
  \<^verbatim>\<open>jwt.sign(payload, secret, {expiresIn})\<close> adds the issue time and the expiry to the
  payload and encodes it; \<^verbatim>\<open>expiresIn\<close> is \<^verbatim>\<open>JWT_EXPIRES_IN\<close>, or ten minutes.
\<close>

definition jwt_sign :: "caps \<Rightarrow> obj \<Rightarrow> string" where
  "jwt_sign cp payload =
     jwt_encode cp (payload @
       [(''iat'', Num (clock cp)),
        (''exp'', Num (clock cp + (case JWT_EXPIRES_IN cp of None \<Rightarrow> 600 | Some ttl \<Rightarrow> ttl)))])"

section \<open>Login\<close>

text \<open>
  The \<^verbatim>\<open>catch\<close> block of \<^verbatim>\<open>loginUser\<close>, entered before or after the connection exists. It
  is entered from the validation helpers, from the driver when it refuses the email, and
  from \<^verbatim>\<open>bcrypt.compare\<close>, which throws unless both its arguments are strings.
\<close>

definition login_catch :: "bool \<Rightarrow> world \<Rightarrow> response \<times> world" where
  "login_catch connected w =
     (respond 500 [(''message'', Str ''An error occurred during login.'')],
      if connected then release (rollback w) else w)"

definition loginUser :: "caps \<Rightarrow> req_body \<Rightarrow> world \<Rightarrow> response \<times> world" where
  "loginUser cp b w =
    (case ensureRequiredFieldsPresent b [''email'', ''password''] of
       Some err \<Rightarrow> login_catch False w
     | None \<Rightarrow>
    (case validateEmailFormat (b ''email'') of
       Some err \<Rightarrow> login_catch False w
     | None \<Rightarrow>
    (let w1 = beginTransaction (getConnection w) in
     case sql_text cp (b ''email'') of
       None \<Rightarrow> login_catch True w1
     | Some e \<Rightarrow>
    (case findUserByEmailInDB e (view w1) of
       None \<Rightarrow>
         (respond 401 [(''message'', Str ''Invalid email or password.'')],
          release (rollback w1))
     | Some user \<Rightarrow>
    (case b ''password'' of
       Str password \<Rightarrow>
    (case fld user ''password_hash'' of
       Str digest \<Rightarrow>
         if \<not> bcrypt_compare cp password digest
         then (respond 401 [(''message'', Str ''Invalid email or password.'')],
               release (rollback w1))
         else if fld user ''status'' = Str ''blocked''
         then (respond 403 [(''message'', Str ''Account is blocked. Please contact support.'')],
               release (rollback w1))
         else
           (let w2 = write_table (updateUserLastLoginDate (fld user ''id'') (CURRENT_TIMESTAMP cp) (view w1)) w1;
                payload = [(''userId'', fld user ''id''), (''email'', fld user ''email'')];
                token = jwt_sign cp payload;
                w3 = commit w2
            in (respond 200
                  [(''message'', Str ''Login successful!''),
                   (''token'', Str token),
                   (''user'', Obj [(''id'', fld user ''id''),
                                   (''first_name'', fld user ''first_name''),
                                   (''last_name'', fld user ''last_name''),
                                   (''email'', fld user ''email'')])],
                release w3))
     | _ \<Rightarrow> login_catch True w1)
     | _ \<Rightarrow> login_catch True w1)))))"

section \<open>Registration\<close>

text \<open>
  \<^verbatim>\<open>INSERT INTO users (first_name, last_name, email, password_hash, job_title, company)\<close>:
  the identity comes from the auto-increment counter; the columns the statement does not
  name take their defaults (no login date, the current time as registration date, status
  \<^verbatim>\<open>active\<close>). \<^verbatim>\<open>job_title || null\<close> binds \<^verbatim>\<open>NULL\<close> for a falsy value. The statement fails
  (\<open>None\<close>) when the driver refuses one of the values.
\<close>

definition or_null :: "val \<Rightarrow> val" where
  "or_null v = (if truthy v then v else Null)"

definition sql_text_or_null :: "caps \<Rightarrow> val \<Rightarrow> string option option" where
  "sql_text_or_null cp v = (if v = Null then Some None else map_option Some (sql_text cp v))"

text \<open>What the statement stores for an optional field that is absent, empty or a string.\<close>

definition optional_text :: "val \<Rightarrow> string option" where
  "optional_text v = (case v of Str s \<Rightarrow> if s = [] then None else Some s | _ \<Rightarrow> None)"

definition insertNewUser ::
  "caps \<Rightarrow> val \<Rightarrow> val \<Rightarrow> string \<Rightarrow> string \<Rightarrow> val \<Rightarrow> val \<Rightarrow> world \<Rightarrow> (nat \<times> world) option" where
  "insertNewUser cp fn ln e hashedPassword jt co w =
    (case sql_text cp fn of None \<Rightarrow> None | Some f \<Rightarrow>
     case sql_text cp ln of None \<Rightarrow> None | Some l \<Rightarrow>
     case sql_text_or_null cp (or_null jt) of None \<Rightarrow> None | Some j \<Rightarrow>
     case sql_text_or_null cp (or_null co) of None \<Rightarrow> None | Some c \<Rightarrow>
       (let row = \<lparr>id_col = next_id w, first_name = f, last_name = l, email = e,
                   password_hash = hashedPassword, job_title = j, company = c,
                   last_login_date = None, registration_date = CURRENT_TIMESTAMP cp,
                   status = ''active''\<rparr>
        in Some (next_id w, (write_table (view w @ [row]) w)\<lparr>next_id := Suc (next_id w)\<rparr>)))"

text \<open>The \<^verbatim>\<open>catch\<close> block of \<^verbatim>\<open>registerUser\<close>: \<^verbatim>\<open>error.statusCode || 500\<close>, \<^verbatim>\<open>error.message || ...\<close>.\<close>

definition register_catch :: "bool \<Rightarrow> js_error \<Rightarrow> world \<Rightarrow> response \<times> world" where
  "register_catch connected err w =
     (respond (case statusCode err of None \<Rightarrow> 500 | Some c \<Rightarrow> if c = 0 then 500 else c)
        [(''message'', Str (if err_message err = []
                            then ''An error occurred during registration.''
                            else err_message err))],
      if connected then release (rollback w) else w)"

text \<open>\<^verbatim>\<open>bcrypt.hash\<close> throws unless the password is a string.\<close>

definition registerUser :: "caps \<Rightarrow> req_body \<Rightarrow> world \<Rightarrow> response \<times> world" where
  "registerUser cp b w =
    (case ensureRequiredFieldsPresent b [''first_name'', ''last_name'', ''email'', ''password''] of
       Some err \<Rightarrow> register_catch False err w
     | None \<Rightarrow>
    (case validateEmailFormat (b ''email'') of
       Some err \<Rightarrow> register_catch False err w
     | None \<Rightarrow>
    (let w1 = beginTransaction (getConnection w) in
     case sql_text cp (b ''email'') of
       None \<Rightarrow> register_catch True (driver_error cp) w1
     | Some e \<Rightarrow>
    (case checkEmailAvailability e (view w1) of
       Some err \<Rightarrow> register_catch True err w1
     | None \<Rightarrow>
    (case b ''password'' of
       Str password \<Rightarrow>
    (case insertNewUser cp (b ''first_name'') (b ''last_name'') e (bcrypt_hash cp password)
            (b ''job_title'') (b ''company'') w1 of
       None \<Rightarrow> register_catch True (driver_error cp) w1
     | Some (userId, w2) \<Rightarrow>
    (let w3 = write_table (updateUserLastLoginDate (Num (int userId)) (CURRENT_TIMESTAMP cp) (view w2)) w2;
         w4 = commit w3;
         payload = [(''userId'', Num (int userId)), (''email'', b ''email'')];
         token = jwt_sign cp payload
     in (respond 201
           [(''message'', Str ''User registered successfully!''),
            (''token'', Str token),
            (''userId'', Num (int userId)),
            (''user'', Obj [(''id'', Num (int userId)),
                            (''first_name'', b ''first_name''),
                            (''last_name'', b ''last_name''),
                            (''email'', b ''email''),
                            (''job_title'', or_null (b ''job_title'')),
                            (''company'', or_null (b ''company''))])],
         release w4)))
     | _ \<Rightarrow> register_catch True \<lparr>err_message = bcrypt_message cp, statusCode = None\<rparr> w1)))))"

section \<open>Listing users\<close>

definition columnsToSelect :: "string list" where
  "columnsToSelect = [''id'', ''first_name'', ''last_name'', ''email'', ''job_title'', ''company'',
                      ''last_login_date'', ''registration_date'', ''status'']"

definition allowedSortBy :: "string list" where
  "allowedSortBy = [''id'', ''first_name'', ''last_name'', ''email'', ''last_login_date'',
                    ''registration_date'', ''status'']"

text \<open>\<^verbatim>\<open>allowedSortBy.includes(v)\<close> compares strictly: only a string is included.\<close>

definition effectiveSortBy :: "val \<Rightarrow> string" where
  "effectiveSortBy clientSortBy =
     (case clientSortBy of
        Str s \<Rightarrow> if s \<noteq> [] \<and> s \<in> set allowedSortBy then s else ''last_login_date''
      | _ \<Rightarrow> ''last_login_date'')"

text \<open>
  \<^verbatim>\<open>clientSortOrder && clientSortOrder.toUpperCase() === 'ASC' ? 'ASC' : 'DESC'\<close>: of the
  values of a request only a string has the method \<^verbatim>\<open>toUpperCase\<close>; on any other truthy
  value the call throws (\<open>None\<close>).
\<close>

definition effectiveSortOrder :: "val \<Rightarrow> string option" where
  "effectiveSortOrder clientSortOrder =
     (if \<not> truthy clientSortOrder then Some ''DESC''
      else case clientSortOrder of
        Str s \<Rightarrow> Some (if toUpperCase s = ''ASC'' then ''ASC'' else ''DESC'')
      | _ \<Rightarrow> None)"

text \<open>
  The terms of the \<^verbatim>\<open>ORDER BY\<close> clause: a column in backticks, a bare column, or the test
  \<^verbatim>\<open>`c` IS NULL\<close>, each with its direction.
\<close>

datatype order_expr = IsNull string | Quoted string | Bare string

type_synonym order_term = "order_expr \<times> string"

definition orderByTerms :: "string \<Rightarrow> string \<Rightarrow> order_term list" where
  "orderByTerms sortBy sortOrder =
     (if sortBy = ''last_login_date'' then
        (if sortOrder = ''DESC''
         then [(IsNull ''last_login_date'', ''ASC''), (Quoted ''last_login_date'', ''DESC''),
               (Bare ''registration_date'', ''DESC'')]
         else [(IsNull ''last_login_date'', ''ASC''), (Quoted ''last_login_date'', ''ASC''),
               (Bare ''registration_date'', ''ASC'')])
      else [(Quoted sortBy, sortOrder), (Bare ''registration_date'', ''DESC'')])"

fun render_expr :: "order_expr \<Rightarrow> string" where
  "render_expr (IsNull c) = ''`'' @ c @ ''` IS NULL''"
| "render_expr (Quoted c) = ''`'' @ c @ ''`''"
| "render_expr (Bare c) = c"

fun render_terms :: "order_term list \<Rightarrow> string" where
  "render_terms [] = []"
| "render_terms [(e, d)] = render_expr e @ '' '' @ d"
| "render_terms ((e, d) # ts) = render_expr e @ '' '' @ d @ '', '' @ render_terms ts"

definition orderByClause :: "string \<Rightarrow> string \<Rightarrow> string" where
  "orderByClause sortBy sortOrder = ''ORDER BY '' @ render_terms (orderByTerms sortBy sortOrder)"

text \<open>
  What the database does with the clause. Values of one column compare by
  \<open>collation_key\<close>: \<^verbatim>\<open>NULL\<close> is lowest, numbers compare as integers, strings code unit by
  code unit. Rows compare term by term, the first term that tells them apart deciding,
  in its direction. The result is the table sorted by that comparison (rows that no term
  tells apart keep their order).
\<close>

definition collation_key :: "val \<Rightarrow> nat \<times> int \<times> string" where
  "collation_key v = (case v of Num n \<Rightarrow> (1, n, []) | Str s \<Rightarrow> (2, 0, s) | _ \<Rightarrow> (0, 0, []))"

fun expr_val :: "order_expr \<Rightarrow> user_row \<Rightarrow> val" where
  "expr_val (IsNull c) r = Num (if col c r = Null then 1 else 0)"
| "expr_val (Quoted c) r = col c r"
| "expr_val (Bare c) r = col c r"

fun row_le :: "order_term list \<Rightarrow> user_row \<Rightarrow> user_row \<Rightarrow> bool" where
  "row_le [] a b = True"
| "row_le ((e, d) # ts) a b =
     (if collation_key (expr_val e a) = collation_key (expr_val e b) then row_le ts a b
      else if d = ''DESC'' then collation_key (expr_val e b) < collation_key (expr_val e a)
      else collation_key (expr_val e a) < collation_key (expr_val e b))"

fun insert_row :: "order_term list \<Rightarrow> user_row \<Rightarrow> user_row list \<Rightarrow> user_row list" where
  "insert_row ts x [] = [x]"
| "insert_row ts x (y # ys) = (if row_le ts x y then x # y # ys else y # insert_row ts x ys)"

definition order_by :: "order_term list \<Rightarrow> user_row list \<Rightarrow> user_row list" where
  "order_by ts t = foldr (insert_row ts) t []"

definition fetchAllUsersFromDB :: "val \<Rightarrow> val \<Rightarrow> user_row list \<Rightarrow> obj list option" where
  "fetchAllUsersFromDB clientSortBy clientSortOrder t =
     (case effectiveSortOrder clientSortOrder of
        None \<Rightarrow> None
      | Some sortOrder \<Rightarrow>
          Some (map (select columnsToSelect)
                  (order_by (orderByTerms (effectiveSortBy clientSortBy) sortOrder) t)))"

text \<open>
  The query parameters are \<open>Undefined\<close> when absent, a string, or an array or an object
  when the query string repeats or nests the name.
\<close>

definition getAllUsers :: "val \<Rightarrow> val \<Rightarrow> world \<Rightarrow> response \<times> world" where
  "getAllUsers q_sortBy q_sortOrder w =
    (let sortBy = (if truthy q_sortBy then q_sortBy else Str ''last_login_date'');
         sortOrder = (if truthy q_sortOrder then q_sortOrder else Str ''DESC'');
         w1 = getConnection w
     in case fetchAllUsersFromDB sortBy sortOrder (view w1) of
          None \<Rightarrow>
            (respond 500 [(''message'', Str ''An error occurred while retrieving users.'')],
             release w1)
        | Some users \<Rightarrow>
            (respond 200
               [(''message'', Str ''Users retrieved successfully!''),
                (''count'', Num (int (length users))),
                (''users'', Arr (map Obj users))],
             release w1))"

section \<open>Bulk operations\<close>

text \<open>
  The body of a bulk request: the fields \<^verbatim>\<open>userIds\<close> and \<^verbatim>\<open>status\<close>. \<^verbatim>\<open>parseInt\<close> converts
  each entry of the array to a string first.
\<close>

record bulk_body =
  userIds :: val
  status_field :: val

definition coerce_ids :: "val list \<Rightarrow> number list" where
  "coerce_ids ids = filter positive (map (\<lambda>v. parseInt (to_string v)) ids)"

text \<open>\<^verbatim>\<open>WHERE id IN (?)\<close> with a list of numbers.\<close>

definition id_in :: "number list \<Rightarrow> user_row \<Rightarrow> bool" where
  "id_in ids r = (Finite (int (id_col r)) \<in> set ids)"

text \<open>
  Both statements report the number of rows they matched, with the new table. The
  driver writes \<^verbatim>\<open>Infinity\<close> into the statement as that word, which the database refuses
  (\<open>None\<close>).
\<close>

definition deleteMultipleUsersFromDB ::
  "number list \<Rightarrow> user_row list \<Rightarrow> (nat \<times> user_row list) option" where
  "deleteMultipleUsersFromDB idsToDelete t =
     (if idsToDelete = [] then Some (0, t)
      else if Infinity \<in> set idsToDelete then None
      else Some (length (filter (id_in idsToDelete) t), filter (\<lambda>r. \<not> id_in idsToDelete r) t))"

definition updateStatusForMultipleUsersInDB ::
  "number list \<Rightarrow> string \<Rightarrow> user_row list \<Rightarrow> (nat \<times> user_row list) option" where
  "updateStatusForMultipleUsersInDB ids st t =
     (if ids = [] then Some (0, t)
      else if Infinity \<in> set ids then None
      else Some (length (filter (id_in ids) t),
                 map (\<lambda>r. if id_in ids r then r\<lparr>status := st\<rparr> else r) t))"

text \<open>
  \<^verbatim>\<open>!status || !['active', 'blocked'].includes(status.toLowerCase())\<close>: a truthy status that
  is not a string has no method \<^verbatim>\<open>toLowerCase\<close>, and the call throws before a connection
  exists.
\<close>

definition update_catch :: "bool \<Rightarrow> world \<Rightarrow> response \<times> world" where
  "update_catch connected w =
     (respond 500 [(''message'', Str ''An error occurred while updating user statuses.'')],
      if connected then release (rollback w) else w)"

definition updateMultipleUsersStatus :: "bulk_body \<Rightarrow> world \<Rightarrow> response \<times> world" where
  "updateMultipleUsersStatus b w =
    (case userIds b of
       Arr ids \<Rightarrow>
    (if ids = []
     then (respond 400 [(''message'', Str ''Please provide a non-empty array of user IDs.'')], w)
     else if \<not> truthy (status_field b)
     then (respond 400
             [(''message'', Str ''Invalid status provided. Must be 'active' or 'blocked'.'')], w)
     else
    (case status_field b of
       Str st \<Rightarrow>
    (if toLowerCase st \<notin> set [''active'', ''blocked'']
     then (respond 400
             [(''message'', Str ''Invalid status provided. Must be 'active' or 'blocked'.'')], w)
     else
    (let validUserIds = coerce_ids ids in
     if validUserIds = []
     then (respond 400 [(''message'', Str ''No valid user IDs provided for status update.'')], w)
     else
    (let w1 = beginTransaction (getConnection w) in
     case updateStatusForMultipleUsersInDB validUserIds (toLowerCase st) (view w1) of
       None \<Rightarrow> update_catch True w1
     | Some (affectedRows, t) \<Rightarrow>
    (let w2 = commit (write_table t w1)
     in if affectedRows = 0 \<and> length validUserIds > 0
        then (respond 404
                [(''message'', Str ''No users found matching the provided IDs for status update.'')],
              release w2)
        else (respond 200
                [(''message'', Str (''Successfully updated status to '' @ [CHR 0x27] @
                      toLowerCase st @ [CHR 0x27] @ '' for '' @
                      show_nat affectedRows @ '' user(s).''))],
              release w2)))))
     | _ \<Rightarrow> update_catch False w))
     | _ \<Rightarrow> (respond 400 [(''message'', Str ''Please provide a non-empty array of user IDs.'')], w))"

definition delete_catch :: "bool \<Rightarrow> world \<Rightarrow> response \<times> world" where
  "delete_catch connected w =
     (respond 500 [(''message'', Str ''An error occurred while deleting users.'')],
      if connected then release (rollback w) else w)"

definition deleteMultipleUsers :: "bulk_body \<Rightarrow> world \<Rightarrow> response \<times> world" where
  "deleteMultipleUsers b w =
    (case userIds b of
       Arr ids \<Rightarrow>
    (if ids = []
     then (respond 400 [(''message'', Str ''Please provide an array of user IDs.'')], w)
     else
    (let validUserIds = coerce_ids ids in
     if validUserIds = []
     then (respond 400 [(''message'', Str ''No valid user IDs provided for deletion.'')], w)
     else
    (let w1 = beginTransaction (getConnection w) in
     case deleteMultipleUsersFromDB validUserIds (view w1) of
       None \<Rightarrow> delete_catch True w1
     | Some (affectedRows, t) \<Rightarrow>
    (let w2 = write_table t w1
     in if affectedRows = 0
        then (respond 404
                [(''message'', Str ''No users found matching the provided IDs for deletion, or no valid IDs were provided.'')],
              release w2)
        else (respond 200
                [(''message'', Str (''Successfully deleted '' @ show_nat affectedRows @ '' user(s).''))],
              release (commit w2))))))
     | _ \<Rightarrow> (respond 400 [(''message'', Str ''Please provide an array of user IDs.'')], w))"

section \<open>The authentication middleware\<close>

text \<open>
  \<^verbatim>\<open>jwt.verify\<close> of the \<^verbatim>\<open>jsonwebtoken\<close> library. It throws \<^verbatim>\<open>JsonWebTokenError\<close> when the
  token is not given, is empty, does not decode under the secret, or carries an expiry
  that is not a number; it throws \<^verbatim>\<open>TokenExpiredError\<close> once the clock has reached the
  expiry, with \<^verbatim>\<open>expiredAt\<close> the \<^verbatim>\<open>Date\<close> of the expiry, \<^verbatim>\<open>new Date(payload.exp * 1000)\<close>.
  A \<^verbatim>\<open>Date\<close> is given by its time value in milliseconds. The check of a \<^verbatim>\<open>nbf\<close> claim is
  left out: the tokens that verify under the secret are those \<open>jwt_sign\<close> issued, and it
  adds the issue time and the expiry only. The header of a request is a string, or is
  not there; it is falsy when it is absent or empty.
\<close>

definition falsy :: "string option \<Rightarrow> bool" where
  "falsy v = (case v of None \<Rightarrow> True | Some s \<Rightarrow> s = [])"

definition or_empty :: "string option \<Rightarrow> string" where
  "or_empty v = (case v of None \<Rightarrow> [] | Some s \<Rightarrow> s)"

record jwt_error =
  err_name :: string
  expiredAt :: "int option"

datatype jwt_result = Decoded obj | JwtThrows jwt_error

definition jwt_verify :: "caps \<Rightarrow> string option \<Rightarrow> jwt_result" where
  "jwt_verify cp token =
    (if falsy token then JwtThrows \<lparr>err_name = ''JsonWebTokenError'', expiredAt = None\<rparr>
     else case jwt_decode cp (or_empty token) of
       None \<Rightarrow> JwtThrows \<lparr>err_name = ''JsonWebTokenError'', expiredAt = None\<rparr>
     | Some payload \<Rightarrow>
        (case fld payload ''exp'' of
           Undefined \<Rightarrow> Decoded payload
         | Num e \<Rightarrow>
             if clock cp \<ge> e
             then JwtThrows \<lparr>err_name = ''TokenExpiredError'', expiredAt = Some (e * 1000)\<rparr>
             else Decoded payload
         | _ \<Rightarrow> JwtThrows \<lparr>err_name = ''JsonWebTokenError'', expiredAt = None\<rparr>))"

text \<open>\<^verbatim>\<open>String(new Date(ms))\<close>; a time value beyond the range of \<^verbatim>\<open>Date\<close> is an invalid date.\<close>

definition new_Date_string :: "caps \<Rightarrow> int \<Rightarrow> string" where
  "new_Date_string cp ms =
     (if \<bar>ms\<bar> \<le> 8640000000000000 then Date_toString cp ms else ''Invalid Date'')"

definition authColumns :: "string list" where
  "authColumns = [''id'', ''email'', ''status'']"

definition getUserForAuth :: "val \<Rightarrow> user_row list \<Rightarrow> obj option" where
  "getUserForAuth userId t =
     (case filter (id_is userId) t of
        [] \<Rightarrow> None
      | r # _ \<Rightarrow> Some (select authColumns r))"

text \<open>The \<^verbatim>\<open>catch\<close> block of \<^verbatim>\<open>protect\<close>, which reads \<^verbatim>\<open>error.name\<close> and \<^verbatim>\<open>error.expiredAt\<close>.\<close>

definition protect_catch :: "caps \<Rightarrow> jwt_error \<Rightarrow> response" where
  "protect_catch cp error =
    (if err_name error = ''JsonWebTokenError''
     then respond 401
            [(''message'', Str ''Not authorized, invalid token (e.g., signature mismatch or malformed)'')]
     else if err_name error = ''TokenExpiredError''
     then (let expiryDate = (case expiredAt error of
                               Some d \<Rightarrow> new_Date_string cp (d * 1000)
                             | None \<Rightarrow> ''N/A'')
           in respond 401 [(''message'', Str (''Not authorized, token expired at '' @ expiryDate))])
     else respond 401 [(''message'', Str ''Not authorized, token verification process failed'')])"

text \<open>
  The outcome of the middleware: a response, or \<^verbatim>\<open>next()\<close> with \<^verbatim>\<open>req.user\<close> set. The
  token is verified before the connection is taken, so an error of \<^verbatim>\<open>jwt.verify\<close> is caught
  with no connection to release. A payload without \<^verbatim>\<open>userId\<close> makes the query throw (a bound
  parameter must not be \<^verbatim>\<open>undefined\<close>), which the \<^verbatim>\<open>catch\<close> block answers with its last case.
\<close>

datatype guard_result = Rejected response | Next obj

definition protect :: "caps \<Rightarrow> string option \<Rightarrow> world \<Rightarrow> guard_result \<times> world" where
  "protect cp authorization w =
    (if \<not> falsy authorization \<and> startsWith (or_empty authorization) ''Bearer'' then
       (let token = at_index (split_on CHR '' '' (or_empty authorization)) 1 in
        case jwt_verify cp token of
          JwtThrows error \<Rightarrow> (Rejected (protect_catch cp error), w)
        | Decoded decoded \<Rightarrow>
           (let w1 = getConnection w in
            if fld decoded ''userId'' = Undefined
            then (Rejected (protect_catch cp \<lparr>err_name = ''TypeError'', expiredAt = None\<rparr>),
                  release w1)
            else case getUserForAuth (fld decoded ''userId'') (view w1) of
              None \<Rightarrow>
                (Rejected (respond 401
                   [(''message'', Str ''Not authorized, user associated with token not found'')]),
                 release w1)
            | Some currentUser \<Rightarrow>
                if fld currentUser ''status'' = Str ''blocked''
                then (Rejected (respond 403
                        [(''message'', Str ''Forbidden: Your account is blocked.'')]),
                      release w1)
                else (Next currentUser, release w1)))
     else (Rejected (respond 401 [(''message'', Str ''Not authorized, no Bearer token provided'')]), w))"

section \<open>Stored digests under relabelling\<close>

text \<open>
  To state that a digest never reaches a caller, the digests of the table are replaced
  by others: \<open>redigest f\<close> stores \<open>f d\<close> wherever the digest \<open>d\<close> was stored. An output that
  is the same for every such \<open>f\<close> carries nothing of the stored digests.
\<close>

definition redigest :: "(string \<Rightarrow> string) \<Rightarrow> user_row list \<Rightarrow> user_row list" where
  "redigest f t = map (\<lambda>r. r\<lparr>password_hash := f (password_hash r)\<rparr>) t"

definition redigest_world :: "(string \<Rightarrow> string) \<Rightarrow> world \<Rightarrow> world" where
  "redigest_world f w =
     w\<lparr>store := redigest f (store w), pending := map_option (redigest f) (pending w)\<rparr>"

section \<open>A small instance\<close>

text \<open>
  Three users, the second one blocked and never logged in; a toy hash and three tokens,
  one of them expired, and a driver that refuses every value that is not a string, for
  running the operations on concrete requests.
\<close>

definition ann :: user_row where
  "ann = \<lparr>id_col = 1, first_name = ''Ann'', last_name = ''Lee'', email = ''ann@x.io'',
          password_hash = ''#pw-ann'', job_title = None, company = None,
          last_login_date = Some 50, registration_date = 10, status = ''active''\<rparr>"

definition bob :: user_row where
  "bob = \<lparr>id_col = 2, first_name = ''Bob'', last_name = ''Ray'', email = ''bob@x.io'',
          password_hash = ''#pw-bob'', job_title = Some ''dev'', company = None,
          last_login_date = None, registration_date = 20, status = ''blocked''\<rparr>"

definition cyd :: user_row where
  "cyd = \<lparr>id_col = 3, first_name = ''Cyd'', last_name = ''Ode'', email = ''cyd@x.io'',
          password_hash = ''#pw-cyd'', job_title = None, company = Some ''Acme'',
          last_login_date = Some 50, registration_date = 30, status = ''active''\<rparr>"

definition example_world :: world where
  "example_world = \<lparr>store = [ann, bob, cyd], next_id = 4, pending = None, trace = []\<rparr>"

definition example_decode :: "string \<Rightarrow> obj option" where
  "example_decode t =
     (if t = ''bob.token''
      then Some [(''userId'', Num 2), (''email'', Str ''bob@x.io''),
                 (''iat'', Num 1799999900), (''exp'', Num 1800000500)]
      else if t = ''ann.token''
      then Some [(''userId'', Num 1), (''email'', Str ''ann@x.io''),
                 (''iat'', Num 1799999900), (''exp'', Num 1800000500)]
      else if t = ''old.token''
      then Some [(''userId'', Num 1), (''email'', Str ''ann@x.io''),
                 (''iat'', Num 1699999400), (''exp'', Num 1700000000)]
      else None)"

definition example_caps :: caps where
  "example_caps =
     \<lparr>bcrypt_hash = (\<lambda>p. CHR ''#'' # p),
      bcrypt_compare = (\<lambda>p d. d = CHR ''#'' # p),
      bcrypt_message = ''data must be a string or Buffer and salt must either be a salt string or a number of rounds'',
      jwt_encode = (\<lambda>payload. ''signed.token''),
      jwt_decode = example_decode,
      JWT_EXPIRES_IN = None,
      clock = 1800000000,
      CURRENT_TIMESTAMP = 99,
      Date_toString = (\<lambda>ms. if ms = 1700000000000 then ''Tue Nov 14 2023 22:13:20 GMT+0000''
                             else ''another instant''),
      driver_text = (\<lambda>v. None),
      driver_message = ''Bind parameters must not contain undefined or a function''\<rparr>"

section \<open>Basic facts about rows, connections and lookups\<close>

lemmas conn_defs = getConnection_def beginTransaction_def commit_def rollback_def release_def
  view_def write_table_def

lemmas example_defs = example_world_def example_caps_def example_decode_def ann_def bob_def cyd_def

lemmas parse_defs = coerce_ids_def parseInt_def is_space_def is_digit_def digits_val_def
  digit_val_def positive_def negate_def Let_def

lemma fld_login:
  "fld (select loginColumns r) ''id'' = Num (int (id_col r))"
  "fld (select loginColumns r) ''first_name'' = Str (first_name r)"
  "fld (select loginColumns r) ''last_name'' = Str (last_name r)"
  "fld (select loginColumns r) ''email'' = Str (email r)"
  "fld (select loginColumns r) ''password_hash'' = Str (password_hash r)"
  "fld (select loginColumns r) ''status'' = Str (status r)"
  by (simp_all add: fld_def select_def loginColumns_def col_def)

lemma fld_auth:
  "fld (select authColumns r) ''id'' = Num (int (id_col r))"
  "fld (select authColumns r) ''email'' = Str (email r)"
  "fld (select authColumns r) ''status'' = Str (status r)"
  by (simp_all add: fld_def select_def authColumns_def col_def)

lemma view_getConnection: "view (getConnection w) = view w"
  by (cases "pending w") (simp_all add: view_def getConnection_def)

lemma view_begin: "view (beginTransaction (getConnection w)) = view w"
  by (cases "pending w") (simp_all add: conn_defs)

lemma view_idle: "pending w = None \<Longrightarrow> view w = store w"
  by (simp add: view_def)

lemma filter_unique:
  "distinct (map f t) \<Longrightarrow> u \<in> set t \<Longrightarrow> filter (\<lambda>r. f r = f u) t = [u]"
proof (induction t)
  case Nil
  then show ?case by simp
next
  case (Cons a t)
  show ?case
  proof (cases "a = u")
    case True
    have "f u \<notin> f ` set t" using Cons.prems(1) True by simp
    then have "\<forall>x\<in>set t. f x \<noteq> f u" by (metis imageI)
    then have "filter (\<lambda>r. f r = f u) t = []"
      by (simp add: filter_empty_conv)
    with True show ?thesis by simp
  next
    case False
    with Cons have "u \<in> set t" "f a \<noteq> f u" by auto
    with Cons show ?thesis by simp
  qed
qed

section \<open>The email pattern\<close>

text \<open>
  \<open>emailRegex_test\<close> accepts exactly the strings the pattern matches: a local part, an
  \<^verbatim>\<open>@\<close>, a part, a dot and a last part, the three parts non-empty and free of white space
  and of \<^verbatim>\<open>@\<close>.
\<close>

lemma emailRegex_test_matches:
  "emailRegex_test e \<longleftrightarrow>
     (\<exists>A B C. e = A @ ''@'' @ B @ ''.'' @ C \<and> A \<noteq> [] \<and> B \<noteq> [] \<and> C \<noteq> [] \<and>
        (\<forall>c\<in>set (A @ B @ C). \<not> is_space c \<and> c \<noteq> CHR ''@''))"
proof
  assume t: "emailRegex_test e"
  let ?A = "takeWhile (\<lambda>c. c \<noteq> CHR ''@'') e"
  let ?rest = "dropWhile (\<lambda>c. c \<noteq> CHR ''@'') e"
  from t have A: "?A \<noteq> []" and r: "?rest \<noteq> []" and ws: "list_all (\<lambda>c. \<not> is_space c) e"
    and at: "CHR ''@'' \<notin> set (tl ?rest)" and dot: "CHR ''.'' \<in> set (butlast (tl (tl ?rest)))"
    by (simp_all add: emailRegex_test_def Let_def)
  from r have h: "hd ?rest = CHR ''@''"
    using hd_dropWhile[of "\<lambda>c. c \<noteq> CHR ''@''" e] by simp
  obtain d where rest: "?rest = CHR ''@'' # d" using r h by (cases ?rest) auto
  from dot rest obtain x d' where d: "d = x # d'" by (cases d) auto
  from dot rest d have "CHR ''.'' \<in> set (butlast d')" by simp
  then obtain P Q where bl: "butlast d' = P @ CHR ''.'' # Q" by (meson split_list)
  then have "d' \<noteq> []" by auto
  then have "d' = butlast d' @ [last d']" by simp
  then obtain l where d': "d' = P @ CHR ''.'' # Q @ [l]"
    using bl by simp
  define A0 where "A0 = ?A"
  have e: "e = A0 @ ''@'' @ (x # P) @ ''.'' @ (Q @ [l])"
  proof -
    have "e = ?A @ ?rest" by simp
    also have "\<dots> = ?A @ ''@'' @ (x # P) @ ''.'' @ (Q @ [l])"
      by (simp only: rest d d' append.simps)
    finally show ?thesis by (simp only: A0_def)
  qed
  have noA: "\<forall>c\<in>set A0. c \<noteq> CHR ''@''"
    unfolding A0_def by (auto dest: set_takeWhileD)
  have "tl ?rest = (x # P) @ CHR ''.'' # (Q @ [l])"
    by (simp only: rest d d' append.simps list.sel)
  with at have noD: "\<forall>c\<in>set ((x # P) @ (Q @ [l])). c \<noteq> CHR ''@''"
    by auto
  have sp: "\<forall>c\<in>set e. \<not> is_space c" using ws by (simp add: list_all_iff)
  have sp': "\<forall>c\<in>set (A0 @ (x # P) @ (Q @ [l])). \<not> is_space c"
    using sp by (simp add: e)
  show "\<exists>A B C. e = A @ ''@'' @ B @ ''.'' @ C \<and> A \<noteq> [] \<and> B \<noteq> [] \<and> C \<noteq> [] \<and>
        (\<forall>c\<in>set (A @ B @ C). \<not> is_space c \<and> c \<noteq> CHR ''@'')"
  proof (intro exI conjI)
    show "e = A0 @ ''@'' @ (x # P) @ ''.'' @ (Q @ [l])" by (rule e)
    show "A0 \<noteq> []" using A by (simp add: A0_def)
    show "x # P \<noteq> []" by simp
    show "Q @ [l] \<noteq> []" by simp
    show "\<forall>c\<in>set (A0 @ (x # P) @ (Q @ [l])). \<not> is_space c \<and> c \<noteq> CHR ''@''"
      using sp' noA noD by auto
  qed
next
  assume "\<exists>A B C. e = A @ ''@'' @ B @ ''.'' @ C \<and> A \<noteq> [] \<and> B \<noteq> [] \<and> C \<noteq> [] \<and>
        (\<forall>c\<in>set (A @ B @ C). \<not> is_space c \<and> c \<noteq> CHR ''@'')"
  then obtain A B C where e: "e = A @ ''@'' @ B @ ''.'' @ C" and ne: "A \<noteq> []" "B \<noteq> []" "C \<noteq> []"
    and ok: "\<forall>c\<in>set (A @ B @ C). \<not> is_space c \<and> c \<noteq> CHR ''@''" by (elim exE conjE)
  obtain b B' where B: "B = b # B'" using ne(2) by (cases B) auto
  have tw: "takeWhile (\<lambda>c. c \<noteq> CHR ''@'') e = A"
    unfolding e using ok by (simp add: takeWhile_append2)
  have dw: "dropWhile (\<lambda>c. c \<noteq> CHR ''@'') e = CHR ''@'' # B @ CHR ''.'' # C"
    unfolding e using ok by (simp add: dropWhile_append2)
  have sp: "list_all (\<lambda>c. \<not> is_space c) e"
    unfolding e using ok by (auto simp: list_all_iff is_space_def)
  have at: "CHR ''@'' \<notin> set (B @ CHR ''.'' # C)" using ok by auto
  have dot: "CHR ''.'' \<in> set (butlast (B' @ CHR ''.'' # C))"
    using ne(3) by (simp add: butlast_append)
  show "emailRegex_test e"
    using ne(1) sp at dot by (simp add: emailRegex_test_def tw dw B)
qed

section \<open>Login\<close>

text \<open>
  What \<^verbatim>\<open>loginUser\<close> does once the request has passed both validation steps and the
  lookup finds nobody, or finds a user whose digest the password does not match.
\<close>

lemma login_unknown_email:
  assumes "ensureRequiredFieldsPresent b [''email'', ''password''] = None"
    and "validateEmailFormat (b ''email'') = None"
    and "pending w = None"
    and "sql_text cp (b ''email'') = Some e"
    and "findUserByEmailInDB e (store w) = None"
  shows "loginUser cp b w =
           (respond 401 [(''message'', Str ''Invalid email or password.'')],
            w\<lparr>trace := trace w @ [GetConnection, BeginTransaction, Rollback, Release]\<rparr>)"
proof -
  have "findUserByEmailInDB e (view (beginTransaction (getConnection w))) = None"
    using assms(3,5) by (simp add: view_begin view_idle)
  then show ?thesis
    using assms(1-4) by (simp add: loginUser_def Let_def) (simp add: conn_defs)
qed

lemma login_wrong_password:
  assumes "ensureRequiredFieldsPresent b [''email'', ''password''] = None"
    and "validateEmailFormat (b ''email'') = None"
    and "pending w = None"
    and "sql_text cp (b ''email'') = Some e"
    and "findUserByEmailInDB e (store w) = Some user"
    and "fld user ''password_hash'' = Str digest"
    and "b ''password'' = Str p"
    and "\<not> bcrypt_compare cp p digest"
  shows "loginUser cp b w =
           (respond 401 [(''message'', Str ''Invalid email or password.'')],
            w\<lparr>trace := trace w @ [GetConnection, BeginTransaction, Rollback, Release]\<rparr>)"
proof -
  have "findUserByEmailInDB e (view (beginTransaction (getConnection w))) = Some user"
    using assms(3,5) by (simp add: view_begin view_idle)
  then show ?thesis
    using assms(1-4,6-8) by (simp add: loginUser_def Let_def) (simp add: conn_defs)
qed

text \<open>
  A password that is not a string passes the required-field check when it is truthy.
  \<^verbatim>\<open>bcrypt.compare\<close> then throws, but it is only called when the email is known: the
  answer is 500 after a rollback, where an unknown email is answered 401.
\<close>

lemma login_password_not_string:
  assumes "ensureRequiredFieldsPresent b [''email'', ''password''] = None"
    and "validateEmailFormat (b ''email'') = None"
    and "pending w = None"
    and "sql_text cp (b ''email'') = Some e"
    and "findUserByEmailInDB e (store w) = Some user"
    and "\<forall>p. b ''password'' \<noteq> Str p"
  shows "loginUser cp b w =
           (respond 500 [(''message'', Str ''An error occurred during login.'')],
            w\<lparr>trace := trace w @ [GetConnection, BeginTransaction, Rollback, Release]\<rparr>)"
proof -
  have "findUserByEmailInDB e (view (beginTransaction (getConnection w))) = Some user"
    using assms(3,5) by (simp add: view_begin view_idle)
  then show ?thesis
    using assms(1-4,6)
    by (cases "b ''password''")
       (simp_all add: loginUser_def Let_def login_catch_def, simp_all add: conn_defs)
qed

lemma login_password_not_string_example:
  "loginUser example_caps (no_fields(''email'' := Str ''ghost@x.io'', ''password'' := Num 123))
     example_world =
     (respond 401 [(''message'', Str ''Invalid email or password.'')],
      example_world\<lparr>trace := [GetConnection, BeginTransaction, Rollback, Release]\<rparr>)
   \<and> loginUser example_caps (no_fields(''email'' := Str ''ann@x.io'', ''password'' := Num 123))
     example_world =
     (respond 500 [(''message'', Str ''An error occurred during login.'')],
      example_world\<lparr>trace := [GetConnection, BeginTransaction, Rollback, Release]\<rparr>)"
proof -
  have v: "validateEmailFormat (Str ''ghost@x.io'') = None" "validateEmailFormat (Str ''ann@x.io'') = None"
    by (simp_all add: validateEmailFormat_def emailRegex_test_def is_space_def)
  have a: "findUserByEmailInDB ''ghost@x.io'' (store example_world) = None"
    by (simp add: findUserByEmailInDB_def example_defs)
  have b: "findUserByEmailInDB ''ann@x.io'' (store example_world) = Some (select loginColumns ann)"
    by (simp add: findUserByEmailInDB_def example_defs)
  have t: "pending example_world = None" "trace example_world = []"
    by (simp_all add: example_world_def)
  show ?thesis
    using login_unknown_email
            [of "no_fields(''email'' := Str ''ghost@x.io'', ''password'' := Num 123)" example_world
                example_caps "''ghost@x.io''"]
          login_password_not_string
            [of "no_fields(''email'' := Str ''ann@x.io'', ''password'' := Num 123)" example_world
                example_caps "''ann@x.io''" "select loginColumns ann"]
          v a b t
    by (simp add: sql_text_def)
qed

text \<open>
  C2, as the code has it. A login request whose email and password are strings and that
  passes the required-field and the email-shape validation, arriving when no
  transaction is open, is answered in the same way when its email matches no stored
  user and when the user it matches has a digest that the password does not verify
  against: status 401, the message \<^verbatim>\<open>Invalid email or password.\<close>, the transaction rolled
  back, the connection released and the table as it was.
\<close>

theorem login_enumeration_resistance:
  assumes "b ''email'' = Str e"
    and "b ''password'' = Str p"
    and "ensureRequiredFieldsPresent b [''email'', ''password''] = None"
    and "validateEmailFormat (b ''email'') = None"
    and "pending w = None"
    and "findUserByEmailInDB e (store w) = None \<or>
         (\<exists>user digest. findUserByEmailInDB e (store w) = Some user \<and>
            fld user ''password_hash'' = Str digest \<and>
            \<not> bcrypt_compare cp p digest)"
  shows "loginUser cp b w =
           (respond 401 [(''message'', Str ''Invalid email or password.'')],
            w\<lparr>trace := trace w @ [GetConnection, BeginTransaction, Rollback, Release]\<rparr>)
         \<and> store (snd (loginUser cp b w)) = store w
         \<and> pending (snd (loginUser cp b w)) = None"
proof -
  have s: "sql_text cp (b ''email'') = Some e"
    using assms(1) by (simp add: sql_text_def)
  have "loginUser cp b w =
           (respond 401 [(''message'', Str ''Invalid email or password.'')],
            w\<lparr>trace := trace w @ [GetConnection, BeginTransaction, Rollback, Release]\<rparr>)"
    using assms(6) login_unknown_email[OF assms(3-5) s]
      login_wrong_password[OF assms(3-5) s _ _ assms(2)]
    by blast
  then show ?thesis using assms(5) by simp
qed

theorem login_enumeration_resistance_witness:
  "loginUser example_caps (no_fields(''email'' := Str ''ghost@x.io'', ''password'' := Str ''pw-ann''))
     example_world =
     (respond 401 [(''message'', Str ''Invalid email or password.'')],
      example_world\<lparr>trace := [GetConnection, BeginTransaction, Rollback, Release]\<rparr>)
   \<and> loginUser example_caps (no_fields(''email'' := Str ''ann@x.io'', ''password'' := Str ''guess''))
     example_world =
     (respond 401 [(''message'', Str ''Invalid email or password.'')],
      example_world\<lparr>trace := [GetConnection, BeginTransaction, Rollback, Release]\<rparr>)"
proof -
  have v: "validateEmailFormat (Str ''ghost@x.io'') = None" "validateEmailFormat (Str ''ann@x.io'') = None"
    by (simp_all add: validateEmailFormat_def emailRegex_test_def is_space_def)
  have a: "findUserByEmailInDB ''ghost@x.io'' (store example_world) = None"
    by (simp add: findUserByEmailInDB_def example_defs)
  have b: "findUserByEmailInDB ''ann@x.io'' (store example_world) = Some (select loginColumns ann)"
    by (simp add: findUserByEmailInDB_def example_defs)
  have c: "\<not> bcrypt_compare example_caps ''guess'' ''#pw-ann''"
    by (simp add: example_caps_def)
  have d: "fld (select loginColumns ann) ''password_hash'' = Str ''#pw-ann''"
    by (simp add: fld_login ann_def)
  have t: "pending example_world = None" "trace example_world = []"
    by (simp_all add: example_world_def)
  show ?thesis
    using login_enumeration_resistance
            [of "no_fields(''email'' := Str ''ghost@x.io'', ''password'' := Str ''pw-ann'')"
                "''ghost@x.io''" "''pw-ann''" example_world example_caps]
          login_enumeration_resistance
            [of "no_fields(''email'' := Str ''ann@x.io'', ''password'' := Str ''guess'')"
                "''ann@x.io''" "''guess''" example_world example_caps]
          v a b c d t
    by simp
qed

text \<open>
  The claim as it is written also covers requests that never reach the lookup. With an
  empty password the answer is neither 401 nor that message, whether the email is
  unknown or known, and no transaction is opened, so none is rolled back.
\<close>

theorem login_enumeration_counterexample:
  "findUserByEmailInDB ''ghost@x.io'' (store example_world) = None
   \<and> loginUser example_caps (no_fields(''email'' := Str ''ghost@x.io'', ''password'' := Str ''''))
       example_world =
       (respond 500 [(''message'', Str ''An error occurred during login.'')], example_world)
   \<and> findUserByEmailInDB ''ann@x.io'' (store example_world) = Some (select loginColumns ann)
   \<and> bcrypt_compare example_caps '''' (password_hash ann) = False
   \<and> loginUser example_caps (no_fields(''email'' := Str ''ann@x.io'', ''password'' := Str ''''))
       example_world =
       (respond 500 [(''message'', Str ''An error occurred during login.'')], example_world)"
  by (simp add: loginUser_def login_catch_def findUserByEmailInDB_def example_defs)

text \<open>
  C5. A login request that fails either validation step is answered with status 500
  and the generic message, not with the status 400 that the thrown error carries: the
  \<^verbatim>\<open>catch\<close> block of \<^verbatim>\<open>loginUser\<close> does not read \<^verbatim>\<open>error.statusCode\<close>. No connection is
  taken and no transaction is opened.
\<close>

theorem login_validation_failure_is_500:
  assumes "ensureRequiredFieldsPresent b [''email'', ''password''] \<noteq> None \<or>
           validateEmailFormat (b ''email'') \<noteq> None"
  shows "loginUser cp b w =
           (respond 500 [(''message'', Str ''An error occurred during login.'')], w)"
  using assms by (auto simp: loginUser_def login_catch_def split: option.splits)

theorem login_validation_failure_is_500_witness:
  "ensureRequiredFieldsPresent (no_fields(''password'' := Str ''pw'')) [''email'', ''password'']
     = Some \<lparr>err_message = ''Please provide email.'', statusCode = Some 400\<rparr>
   \<and> loginUser example_caps (no_fields(''password'' := Str ''pw'')) example_world =
       (respond 500 [(''message'', Str ''An error occurred during login.'')], example_world)
   \<and> validateEmailFormat (Str ''not-an-email'')
     = Some \<lparr>err_message = ''Invalid email format.'', statusCode = Some 400\<rparr>
   \<and> loginUser example_caps (no_fields(''email'' := Str ''not-an-email'', ''password'' := Str ''pw''))
       example_world =
       (respond 500 [(''message'', Str ''An error occurred during login.'')], example_world)"
proof -
  have a: "ensureRequiredFieldsPresent (no_fields(''password'' := Str ''pw'')) [''email'', ''password'']
     = Some \<lparr>err_message = ''Please provide email.'', statusCode = Some 400\<rparr>"
    by (simp add: no_fields_def)
  have b: "validateEmailFormat (Str ''not-an-email'')
     = Some \<lparr>err_message = ''Invalid email format.'', statusCode = Some 400\<rparr>"
    by (simp add: validateEmailFormat_def emailRegex_test_def)
  show ?thesis
    using login_validation_failure_is_500
            [of "no_fields(''password'' := Str ''pw'')" example_caps example_world]
          login_validation_failure_is_500
            [of "no_fields(''email'' := Str ''not-an-email'', ''password'' := Str ''pw'')"
                example_caps example_world]
          a b
    by simp
qed

section \<open>Listing users: the sort policy\<close>

lemma row_le_total: "row_le ts a b \<or> row_le ts b a"
  by (induction ts a b rule: row_le.induct) auto

lemma row_le_trans: "row_le ts a b \<Longrightarrow> row_le ts b c \<Longrightarrow> row_le ts a c"
proof (induction ts)
  case Nil
  then show ?case by simp
next
  case (Cons t ts)
  obtain e d where t: "t = (e, d)" by (cases t)
  from Cons show ?case
    unfolding t by (auto split: if_splits)
qed

lemma set_insert_row: "set (insert_row ts x ys) = insert x (set ys)"
  by (induction ys) auto

lemma mset_insert_row: "mset (insert_row ts x ys) = add_mset x (mset ys)"
  by (induction ys) auto

lemma sorted_insert_row:
  "sorted_wrt (row_le ts) ys \<Longrightarrow> sorted_wrt (row_le ts) (insert_row ts x ys)"
proof (induction ys)
  case Nil
  then show ?case by simp
next
  case (Cons y ys)
  show ?case
  proof (cases "row_le ts x y")
    case True
    with Cons.prems show ?thesis
      by (auto intro: row_le_trans)
  next
    case False
    then have "row_le ts y x" using row_le_total by blast
    with False Cons show ?thesis
      by (auto simp: set_insert_row)
  qed
qed

lemma sorted_order_by: "sorted_wrt (row_le ts) (order_by ts t)"
  unfolding order_by_def by (induction t) (simp_all add: sorted_insert_row)

lemma mset_order_by: "mset (order_by ts t) = mset t"
  unfolding order_by_def by (induction t) (simp_all add: mset_insert_row)

lemma effectiveSortBy_cases:
  "effectiveSortBy sb =
     (case sb of Str s \<Rightarrow> if s \<in> set allowedSortBy then s else ''last_login_date''
      | _ \<Rightarrow> ''last_login_date'')"
  by (auto simp: effectiveSortBy_def allowedSortBy_def split: val.splits)

lemma effectiveSortOrder_cases:
  assumes "\<not> truthy so \<or> (\<exists>s. so = Str s)"
  shows "effectiveSortOrder so =
     Some (case so of Str s \<Rightarrow> if toUpperCase s = ''ASC'' then ''ASC'' else ''DESC''
           | _ \<Rightarrow> ''DESC'')"
  using assms by (cases so) (auto simp: effectiveSortOrder_def toUpperCase_def)

lemma effectiveSortOrder_throws:
  assumes "truthy so" and "\<forall>s. so \<noteq> Str s"
  shows "effectiveSortOrder so = None"
  using assms by (cases so) (auto simp: effectiveSortOrder_def)

text \<open>The defaults \<^verbatim>\<open>getAllUsers\<close> puts in change nothing of what the query function decides.\<close>

lemma effectiveSortBy_default:
  "effectiveSortBy (if truthy sb then sb else Str ''last_login_date'') = effectiveSortBy sb"
  by (cases sb) (auto simp: effectiveSortBy_def allowedSortBy_def)

lemma effectiveSortOrder_default:
  "effectiveSortOrder (if truthy so then so else Str ''DESC'') = effectiveSortOrder so"
  by (cases so) (auto simp: effectiveSortOrder_def toUpperCase_def upper_char_def)

lemma getAllUsers_fetch:
  "getAllUsers sb so w =
     (case fetchAllUsersFromDB sb so (view w) of
        None \<Rightarrow>
          (respond 500 [(''message'', Str ''An error occurred while retrieving users.'')],
           w\<lparr>trace := trace w @ [GetConnection, Release]\<rparr>)
      | Some users \<Rightarrow>
          (respond 200
             [(''message'', Str ''Users retrieved successfully!''),
              (''count'', Num (int (length users))),
              (''users'', Arr (map Obj users))],
           w\<lparr>trace := trace w @ [GetConnection, Release]\<rparr>))"
proof -
  have f: "fetchAllUsersFromDB (if truthy sb then sb else Str ''last_login_date'')
             (if truthy so then so else Str ''DESC'') t = fetchAllUsersFromDB sb so t" for t
    unfolding fetchAllUsersFromDB_def
    by (simp only: effectiveSortBy_default effectiveSortOrder_default)
  show ?thesis
    unfolding getAllUsers_def Let_def f view_getConnection
    by (simp add: getConnection_def release_def split: option.splits)
qed

text \<open>
  A sort order that is truthy and not a string (an array, when the query string repeats
  the parameter) makes \<^verbatim>\<open>toUpperCase\<close> throw, and the listing answers 500.
\<close>

lemma list_sort_order_not_string:
  assumes "truthy so" and "\<forall>s. so \<noteq> Str s"
  shows "getAllUsers sb so w =
           (respond 500 [(''message'', Str ''An error occurred while retrieving users.'')],
            w\<lparr>trace := trace w @ [GetConnection, Release]\<rparr>)"
  by (simp add: getAllUsers_fetch fetchAllUsersFromDB_def effectiveSortOrder_throws[OF assms])

lemma list_sort_order_not_string_example:
  "getAllUsers (Str ''id'') (Arr [Str ''ASC'', Str ''DESC'']) example_world =
     (respond 500 [(''message'', Str ''An error occurred while retrieving users.'')],
      example_world\<lparr>trace := [GetConnection, Release]\<rparr>)"
  using list_sort_order_not_string[of "Arr [Str ''ASC'', Str ''DESC'']" "Str ''id''" example_world]
  by (simp add: example_world_def)

text \<open>The text of the clause is the one the source builds, in each of its three cases.\<close>

lemma orderByClause_text:
  "orderByClause ''last_login_date'' ''DESC'' =
     ''ORDER BY `last_login_date` IS NULL ASC, `last_login_date` DESC, registration_date DESC''"
  "orderByClause ''last_login_date'' ''ASC'' =
     ''ORDER BY `last_login_date` IS NULL ASC, `last_login_date` ASC, registration_date ASC''"
  "k \<noteq> ''last_login_date'' \<Longrightarrow>
     orderByClause k d = ''ORDER BY `'' @ k @ ''` '' @ d @ '', registration_date DESC''"
  by (simp_all add: orderByClause_def orderByTerms_def)

text \<open>What two rows in the order of the clause satisfy, for the login date and for another key.\<close>

lemma row_le_login_date:
  assumes "d = ''ASC'' \<or> d = ''DESC''"
      and "row_le (orderByTerms ''last_login_date'' d) a b"
  shows "case (last_login_date a, last_login_date b) of
           (None, None) \<Rightarrow> True
         | (None, Some y) \<Rightarrow> False
         | (Some x, None) \<Rightarrow> True
         | (Some x, Some y) \<Rightarrow>
             if d = ''DESC'' then y < x \<or> (x = y \<and> registration_date b \<le> registration_date a)
             else x < y \<or> (x = y \<and> registration_date a \<le> registration_date b)"
  using assms
  by (cases "last_login_date a"; cases "last_login_date b")
     (auto simp: orderByTerms_def col_def collation_key_def opt_num_def split: if_splits)

lemma row_le_other_key:
  assumes "k \<noteq> ''last_login_date''"
      and "row_le (orderByTerms k d) a b"
  shows "if collation_key (col k a) = collation_key (col k b)
         then registration_date b \<le> registration_date a
         else if d = ''DESC'' then collation_key (col k b) < collation_key (col k a)
         else collation_key (col k a) < collation_key (col k b)"
  using assms
  by (auto simp: orderByTerms_def col_def collation_key_def split: if_splits)

text \<open>
  C3, as the code has it. For a sort order that is absent (or empty) or a string,
  \<^verbatim>\<open>getAllUsers\<close> answers 200 with the rows \<^verbatim>\<open>fetchAllUsersFromDB\<close> returns, which takes the
  requested column when it is in the allow-list (\<^verbatim>\<open>id\<close>, \<^verbatim>\<open>first_name\<close>, \<^verbatim>\<open>last_name\<close>,
  \<^verbatim>\<open>email\<close>, \<^verbatim>\<open>last_login_date\<close>, \<^verbatim>\<open>registration_date\<close>, \<^verbatim>\<open>status\<close>) and \<^verbatim>\<open>last_login_date\<close>
  otherwise; the direction is \<^verbatim>\<open>ASC\<close> when the requested one is \<^verbatim>\<open>ASC\<close> in any letter case
  and \<^verbatim>\<open>DESC\<close> otherwise. The rows returned are the rows of the table. Sorted by login
  date, no row without a login date comes before one with a login date, rows with login
  dates follow the direction, and equal login dates follow the registration date in the
  same direction. Sorted by another column, rows follow that column in the direction,
  and rows equal in it come in descending registration date.
\<close>

theorem list_sort_policy:
  assumes "\<not> truthy clientSortOrder \<or> (\<exists>s. clientSortOrder = Str s)"
  shows
  "(let sortBy = effectiveSortBy clientSortBy;
        sortOrder = (case clientSortOrder of
                       Str s \<Rightarrow> if toUpperCase s = ''ASC'' then ''ASC'' else ''DESC''
                     | _ \<Rightarrow> ''DESC'');
        rows = order_by (orderByTerms sortBy sortOrder) (view w)
    in sortBy = (case clientSortBy of
                   Str s \<Rightarrow> if s \<in> set allowedSortBy then s else ''last_login_date''
                 | _ \<Rightarrow> ''last_login_date'')
     \<and> effectiveSortOrder clientSortOrder = Some sortOrder
     \<and> fetchAllUsersFromDB clientSortBy clientSortOrder (view w)
         = Some (map (select columnsToSelect) rows)
     \<and> getAllUsers clientSortBy clientSortOrder w =
         (respond 200
            [(''message'', Str ''Users retrieved successfully!''),
             (''count'', Num (int (length rows))),
             (''users'', Arr (map Obj (map (select columnsToSelect) rows)))],
          w\<lparr>trace := trace w @ [GetConnection, Release]\<rparr>)
     \<and> mset rows = mset (view w)
     \<and> (sortBy = ''last_login_date'' \<longrightarrow>
          sorted_wrt (\<lambda>a b.
            case (last_login_date a, last_login_date b) of
              (None, None) \<Rightarrow> True
            | (None, Some y) \<Rightarrow> False
            | (Some x, None) \<Rightarrow> True
            | (Some x, Some y) \<Rightarrow>
                if sortOrder = ''DESC''
                then y < x \<or> (x = y \<and> registration_date b \<le> registration_date a)
                else x < y \<or> (x = y \<and> registration_date a \<le> registration_date b)) rows)
     \<and> (sortBy \<noteq> ''last_login_date'' \<longrightarrow>
          sorted_wrt (\<lambda>a b.
            if collation_key (col sortBy a) = collation_key (col sortBy b)
            then registration_date b \<le> registration_date a
            else if sortOrder = ''DESC'' then collation_key (col sortBy b) < collation_key (col sortBy a)
            else collation_key (col sortBy a) < collation_key (col sortBy b)) rows))"
proof -
  let ?by = "effectiveSortBy clientSortBy"
  let ?dir = "(case clientSortOrder of
                Str s \<Rightarrow> if toUpperCase s = ''ASC'' then ''ASC'' else ''DESC''
              | _ \<Rightarrow> ''DESC'')"
  let ?rows = "order_by (orderByTerms ?by ?dir) (view w)"
  have dir: "?dir = ''ASC'' \<or> ?dir = ''DESC''"
    by (simp split: val.splits)
  have so: "effectiveSortOrder clientSortOrder = Some ?dir"
    by (rule effectiveSortOrder_cases[OF assms])
  have fetch: "fetchAllUsersFromDB clientSortBy clientSortOrder (view w)
         = Some (map (select columnsToSelect) ?rows)"
    by (simp add: fetchAllUsersFromDB_def so)
  have get: "getAllUsers clientSortBy clientSortOrder w =
         (respond 200
            [(''message'', Str ''Users retrieved successfully!''),
             (''count'', Num (int (length ?rows))),
             (''users'', Arr (map Obj (map (select columnsToSelect) ?rows)))],
          w\<lparr>trace := trace w @ [GetConnection, Release]\<rparr>)"
    by (simp add: getAllUsers_fetch fetch)
  have srt: "sorted_wrt (row_le (orderByTerms ?by ?dir)) ?rows"
    by (rule sorted_order_by)
  have a: "sorted_wrt (\<lambda>a b.
            case (last_login_date a, last_login_date b) of
              (None, None) \<Rightarrow> True
            | (None, Some y) \<Rightarrow> False
            | (Some x, None) \<Rightarrow> True
            | (Some x, Some y) \<Rightarrow>
                if ?dir = ''DESC''
                then y < x \<or> (x = y \<and> registration_date b \<le> registration_date a)
                else x < y \<or> (x = y \<and> registration_date a \<le> registration_date b)) ?rows"
    if k: "?by = ''last_login_date''"
  proof (rule sorted_wrt_mono_rel[OF _ srt])
    fix a b
    assume "row_le (orderByTerms ?by ?dir) a b"
    then have "row_le (orderByTerms ''last_login_date'' ?dir) a b" using k by simp
    then show "case (last_login_date a, last_login_date b) of
              (None, None) \<Rightarrow> True
            | (None, Some y) \<Rightarrow> False
            | (Some x, None) \<Rightarrow> True
            | (Some x, Some y) \<Rightarrow>
                if ?dir = ''DESC''
                then y < x \<or> (x = y \<and> registration_date b \<le> registration_date a)
                else x < y \<or> (x = y \<and> registration_date a \<le> registration_date b)"
      by (rule row_le_login_date[OF dir])
  qed
  have b: "sorted_wrt (\<lambda>a b.
            if collation_key (col ?by a) = collation_key (col ?by b)
            then registration_date b \<le> registration_date a
            else if ?dir = ''DESC'' then collation_key (col ?by b) < collation_key (col ?by a)
            else collation_key (col ?by a) < collation_key (col ?by b)) ?rows"
    if k: "?by \<noteq> ''last_login_date''"
  proof (rule sorted_wrt_mono_rel[OF _ srt])
    fix a b
    assume "row_le (orderByTerms ?by ?dir) a b"
    then show "if collation_key (col ?by a) = collation_key (col ?by b)
            then registration_date b \<le> registration_date a
            else if ?dir = ''DESC'' then collation_key (col ?by b) < collation_key (col ?by a)
            else collation_key (col ?by a) < collation_key (col ?by b)"
      by (rule row_le_other_key[OF k])
  qed
  have by_cases: "?by = (case clientSortBy of
                   Str s \<Rightarrow> if s \<in> set allowedSortBy then s else ''last_login_date''
                 | _ \<Rightarrow> ''last_login_date'')"
    by (rule effectiveSortBy_cases)
  have ms: "mset ?rows = mset (view w)"
    by (rule mset_order_by)
  show ?thesis
    unfolding Let_def
    using by_cases so fetch get ms a b by blast
qed

theorem list_sort_policy_witness:
  "effectiveSortBy (Str ''salary'') = ''last_login_date''
   \<and> effectiveSortOrder (Str ''asc'') = Some ''ASC''
   \<and> order_by (orderByTerms ''last_login_date'' ''ASC'') [bob, cyd, ann] = [ann, cyd, bob]
   \<and> sorted_wrt (\<lambda>a b.
            case (last_login_date a, last_login_date b) of
              (None, None) \<Rightarrow> True
            | (None, Some y) \<Rightarrow> False
            | (Some x, None) \<Rightarrow> True
            | (Some x, Some y) \<Rightarrow>
                x < y \<or> (x = y \<and> registration_date a \<le> registration_date b)) [ann, cyd, bob]
   \<and> status_code (fst (getAllUsers (Str ''salary'') (Str ''asc'')
        (example_world\<lparr>store := [bob, cyd, ann]\<rparr>))) = 200
   \<and> effectiveSortBy (Str ''status'') = ''status''
   \<and> effectiveSortOrder Undefined = Some ''DESC''
   \<and> order_by (orderByTerms ''status'' ''DESC'') [bob, ann, cyd] = [bob, cyd, ann]
   \<and> sorted_wrt (\<lambda>a b.
            if collation_key (col ''status'' a) = collation_key (col ''status'' b)
            then registration_date b \<le> registration_date a
            else collation_key (col ''status'' b) < collation_key (col ''status'' a)) [bob, cyd, ann]"
proof -
  have e: "effectiveSortBy (Str ''salary'') = ''last_login_date''"
          "toUpperCase ''asc'' = ''ASC''"
          "effectiveSortBy (Str ''status'') = ''status''"
    by (simp_all add: effectiveSortBy_def allowedSortBy_def toUpperCase_def upper_char_def)
  have v: "view (example_world\<lparr>store := [bob, cyd, ann]\<rparr>) = [bob, cyd, ann]"
          "view (example_world\<lparr>store := [bob, ann, cyd]\<rparr>) = [bob, ann, cyd]"
    by (simp_all add: view_def example_world_def)
  have o1: "order_by (orderByTerms ''last_login_date'' ''ASC'') [bob, cyd, ann] = [ann, cyd, bob]"
    by (simp add: order_by_def orderByTerms_def col_def collation_key_def opt_num_def ann_def bob_def cyd_def)
  have o2: "order_by (orderByTerms ''status'' ''DESC'') [bob, ann, cyd] = [bob, cyd, ann]"
    by (simp add: order_by_def orderByTerms_def col_def collation_key_def ann_def bob_def cyd_def)
  have A: "effectiveSortOrder (Str ''asc'') = Some ''ASC''
     \<and> status_code (fst (getAllUsers (Str ''salary'') (Str ''asc'')
          (example_world\<lparr>store := [bob, cyd, ann]\<rparr>))) = 200
     \<and> sorted_wrt (\<lambda>a b.
            case (last_login_date a, last_login_date b) of
              (None, None) \<Rightarrow> True
            | (None, Some y) \<Rightarrow> False
            | (Some x, None) \<Rightarrow> True
            | (Some x, Some y) \<Rightarrow>
                x < y \<or> (x = y \<and> registration_date a \<le> registration_date b)) [ann, cyd, bob]"
    using list_sort_policy[of "Str ''asc''" "Str ''salary''" "example_world\<lparr>store := [bob, cyd, ann]\<rparr>"]
    unfolding Let_def v
    by (simp add: e o1 respond_def) (simp add: ann_def bob_def cyd_def)
  have B: "effectiveSortOrder Undefined = Some ''DESC''
     \<and> sorted_wrt (\<lambda>a b.
            if collation_key (col ''status'' a) = collation_key (col ''status'' b)
            then registration_date b \<le> registration_date a
            else collation_key (col ''status'' b) < collation_key (col ''status'' a)) [bob, cyd, ann]"
    using list_sort_policy[of Undefined "Str ''status''" "example_world\<lparr>store := [bob, ann, cyd]\<rparr>"]
    unfolding Let_def v
    by (simp add: e o2) (simp add: col_def collation_key_def ann_def bob_def cyd_def)
  show ?thesis
    using A B e(1,3) o1 o2 by blast
qed

text \<open>
  The claim as it is written sends every direction other than \<^verbatim>\<open>ASC\<close> and \<^verbatim>\<open>DESC\<close> to
  \<^verbatim>\<open>DESC\<close>. The source compares in upper case, so \<^verbatim>\<open>asc\<close> sorts ascending.
\<close>

theorem sort_order_counterexample:
  "''asc'' \<noteq> ''ASC'' \<and> ''asc'' \<noteq> ''DESC'' \<and> effectiveSortOrder (Str ''asc'') = Some ''ASC''
   \<and> effectiveSortOrder (Str ''asc'') \<noteq> Some ''DESC''"
  by (simp add: effectiveSortOrder_def toUpperCase_def upper_char_def)

section \<open>Registration\<close>

lemma email_taken:
  "\<exists>r\<in>set t. email r = e \<Longrightarrow>
     checkEmailAvailability e t =
       Some \<lparr>err_message = ''Email already registered.'', statusCode = Some 409\<rparr>"
  by (auto simp: checkEmailAvailability_def filter_empty_conv)

lemma email_free:
  "\<forall>r\<in>set t. email r \<noteq> e \<Longrightarrow> checkEmailAvailability e t = None"
  by (auto simp: checkEmailAvailability_def filter_empty_conv)

lemma map_email_stamp: "map email (updateUserLastLoginDate v n t) = map email t"
  by (induction t) (auto simp: updateUserLastLoginDate_def)

lemma sql_text_optional:
  "\<not> truthy v \<or> (\<exists>s. v = Str s) \<Longrightarrow>
     sql_text_or_null cp (or_null v) = Some (optional_text v)"
  by (cases v) (auto simp: sql_text_or_null_def or_null_def sql_text_def optional_text_def)

lemma register_conflict:
  assumes "ensureRequiredFieldsPresent b [''first_name'', ''last_name'', ''email'', ''password''] = None"
    and "validateEmailFormat (b ''email'') = None"
    and "pending w = None"
    and "b ''email'' = Str e"
    and "\<exists>r\<in>set (store w). email r = e"
  shows "registerUser cp b w =
           (respond 409 [(''message'', Str ''Email already registered.'')],
            w\<lparr>trace := trace w @ [GetConnection, BeginTransaction, Rollback, Release]\<rparr>)"
proof -
  have "checkEmailAvailability e (view (beginTransaction (getConnection w))) =
          Some \<lparr>err_message = ''Email already registered.'', statusCode = Some 409\<rparr>"
    using email_taken[OF assms(5)] assms(3) by (simp add: view_begin view_idle)
  then show ?thesis
    using assms(1-4)
    by (simp add: registerUser_def Let_def sql_text_def register_catch_def)
       (simp add: conn_defs)
qed

lemma register_fresh:
  assumes "ensureRequiredFieldsPresent b [''first_name'', ''last_name'', ''email'', ''password''] = None"
    and "validateEmailFormat (b ''email'') = None"
    and "pending w = None"
    and "b ''email'' = Str e"
    and "\<forall>r\<in>set (store w). email r \<noteq> e"
    and "b ''password'' = Str p"
    and "b ''first_name'' = Str f"
    and "b ''last_name'' = Str l"
    and "\<not> truthy (b ''job_title'') \<or> (\<exists>s. b ''job_title'' = Str s)"
    and "\<not> truthy (b ''company'') \<or> (\<exists>s. b ''company'' = Str s)"
  shows "status_code (fst (registerUser cp b w)) = 201"
    and "trace (snd (registerUser cp b w)) =
           trace w @ [GetConnection, BeginTransaction, Commit, Release]"
    and "pending (snd (registerUser cp b w)) = None"
    and "store (snd (registerUser cp b w)) =
           updateUserLastLoginDate (Num (int (next_id w))) (CURRENT_TIMESTAMP cp)
             (store w @
              [\<lparr>id_col = next_id w, first_name = f, last_name = l, email = e,
                password_hash = bcrypt_hash cp p,
                job_title = optional_text (b ''job_title''),
                company = optional_text (b ''company''),
                last_login_date = None, registration_date = CURRENT_TIMESTAMP cp,
                status = ''active''\<rparr>])"
proof -
  have c: "checkEmailAvailability e (view (beginTransaction (getConnection w))) = None"
    using email_free[OF assms(5)] assms(3) by (simp add: view_begin view_idle)
  have i: "insertNewUser cp (b ''first_name'') (b ''last_name'') e (bcrypt_hash cp p)
             (b ''job_title'') (b ''company'') w1 =
           Some (next_id w1,
             (write_table (view w1 @
               [\<lparr>id_col = next_id w1, first_name = f, last_name = l, email = e,
                 password_hash = bcrypt_hash cp p,
                 job_title = optional_text (b ''job_title''),
                 company = optional_text (b ''company''),
                 last_login_date = None, registration_date = CURRENT_TIMESTAMP cp,
                 status = ''active''\<rparr>]) w1)\<lparr>next_id := Suc (next_id w1)\<rparr>)" for w1
    by (simp add: insertNewUser_def sql_text_def assms(7,8)
          sql_text_optional[OF assms(9)] sql_text_optional[OF assms(10)])
  have r: "registerUser cp b w =
    (let w1 = beginTransaction (getConnection w);
         w2 = (write_table (view w1 @
               [\<lparr>id_col = next_id w1, first_name = f, last_name = l, email = e,
                 password_hash = bcrypt_hash cp p,
                 job_title = optional_text (b ''job_title''),
                 company = optional_text (b ''company''),
                 last_login_date = None, registration_date = CURRENT_TIMESTAMP cp,
                 status = ''active''\<rparr>]) w1)\<lparr>next_id := Suc (next_id w1)\<rparr>;
         userId = next_id w1;
         w3 = write_table (updateUserLastLoginDate (Num (int userId)) (CURRENT_TIMESTAMP cp) (view w2)) w2;
         w4 = commit w3;
         payload = [(''userId'', Num (int userId)), (''email'', b ''email'')];
         token = jwt_sign cp payload
     in (respond 201
           [(''message'', Str ''User registered successfully!''),
            (''token'', Str token),
            (''userId'', Num (int userId)),
            (''user'', Obj [(''id'', Num (int userId)),
                            (''first_name'', b ''first_name''),
                            (''last_name'', b ''last_name''),
                            (''email'', b ''email''),
                            (''job_title'', or_null (b ''job_title'')),
                            (''company'', or_null (b ''company''))])],
         release w4))"
    using assms(1,2) c
    by (simp add: registerUser_def Let_def sql_text_def assms(4,6) i)
  show "status_code (fst (registerUser cp b w)) = 201"
    by (simp add: r Let_def respond_def)
  show "trace (snd (registerUser cp b w)) =
           trace w @ [GetConnection, BeginTransaction, Commit, Release]"
    using assms(3) by (simp add: r Let_def conn_defs)
  show "pending (snd (registerUser cp b w)) = None"
    using assms(3) by (simp add: r Let_def conn_defs)
  show "store (snd (registerUser cp b w)) =
           updateUserLastLoginDate (Num (int (next_id w))) (CURRENT_TIMESTAMP cp)
             (store w @
              [\<lparr>id_col = next_id w, first_name = f, last_name = l, email = e,
                password_hash = bcrypt_hash cp p,
                job_title = optional_text (b ''job_title''),
                company = optional_text (b ''company''),
                last_login_date = None, registration_date = CURRENT_TIMESTAMP cp,
                status = ''active''\<rparr>])"
    using assms(3) by (simp add: r Let_def conn_defs)
qed

text \<open>
  A password that is truthy and not a string passes the validation; \<^verbatim>\<open>bcrypt.hash\<close> throws
  on it, after the email was found free: the answer is 500 with the message of that
  error, and the transaction is rolled back.
\<close>

lemma register_password_not_string:
  assumes "ensureRequiredFieldsPresent b [''first_name'', ''last_name'', ''email'', ''password''] = None"
    and "validateEmailFormat (b ''email'') = None"
    and "pending w = None"
    and "b ''email'' = Str e"
    and "\<forall>r\<in>set (store w). email r \<noteq> e"
    and "\<forall>p. b ''password'' \<noteq> Str p"
    and "bcrypt_message cp \<noteq> []"
  shows "registerUser cp b w =
           (respond 500 [(''message'', Str (bcrypt_message cp))],
            w\<lparr>trace := trace w @ [GetConnection, BeginTransaction, Rollback, Release]\<rparr>)"
proof -
  have c: "checkEmailAvailability e (view (beginTransaction (getConnection w))) = None"
    using email_free[OF assms(5)] assms(3) by (simp add: view_begin view_idle)
  show ?thesis
    using assms(1-4,6,7) c
    by (cases "b ''password''")
       (simp_all add: registerUser_def Let_def sql_text_def register_catch_def,
        simp_all add: conn_defs)
qed

text \<open>
  C4, as the code has it. A registration whose email is a string and that passes the
  required-field and email-shape validation, arriving when no transaction is open: if a
  stored user has its email, the answer is 409 with the message
  \<^verbatim>\<open>Email already registered.\<close>, the transaction is rolled back and the table is as it was;
  if no stored user has it and the password and the names are strings, the job title
  and the company strings or absent, the answer is 201, the transaction is committed,
  the table has gained exactly the new user (with the login time stamped), and every
  further registration of that email that passes validation is answered 409 and changes
  nothing.
\<close>

theorem register_unique_and_atomic:
  assumes "ensureRequiredFieldsPresent b [''first_name'', ''last_name'', ''email'', ''password''] = None"
    and "validateEmailFormat (b ''email'') = None"
    and "pending w = None"
    and "b ''email'' = Str e"
  shows "((\<exists>r\<in>set (store w). email r = e) \<longrightarrow>
            registerUser cp b w =
              (respond 409 [(''message'', Str ''Email already registered.'')],
               w\<lparr>trace := trace w @ [GetConnection, BeginTransaction, Rollback, Release]\<rparr>))
       \<and> ((\<forall>r\<in>set (store w). email r \<noteq> e) \<and>
          b ''password'' = Str p \<and> b ''first_name'' = Str f \<and> b ''last_name'' = Str l \<and>
          (\<not> truthy (b ''job_title'') \<or> (\<exists>s. b ''job_title'' = Str s)) \<and>
          (\<not> truthy (b ''company'') \<or> (\<exists>s. b ''company'' = Str s)) \<longrightarrow>
            (let w' = snd (registerUser cp b w) in
             status_code (fst (registerUser cp b w)) = 201
             \<and> trace w' = trace w @ [GetConnection, BeginTransaction, Commit, Release]
             \<and> pending w' = None
             \<and> map email (store w') = map email (store w) @ [e]
             \<and> (\<exists>r\<in>set (store w'). email r = e \<and>
                   last_login_date r = Some (CURRENT_TIMESTAMP cp))
             \<and> (\<forall>cp' b'.
                   ensureRequiredFieldsPresent b'
                     [''first_name'', ''last_name'', ''email'', ''password''] = None \<and>
                   b' ''email'' = b ''email'' \<longrightarrow>
                   registerUser cp' b' w' =
                     (respond 409 [(''message'', Str ''Email already registered.'')],
                      w'\<lparr>trace := trace w' @ [GetConnection, BeginTransaction, Rollback, Release]\<rparr>))))"
proof (intro conjI impI)
  assume "\<exists>r\<in>set (store w). email r = e"
  then show "registerUser cp b w =
              (respond 409 [(''message'', Str ''Email already registered.'')],
               w\<lparr>trace := trace w @ [GetConnection, BeginTransaction, Rollback, Release]\<rparr>)"
    by (rule register_conflict[OF assms])
next
  assume h: "(\<forall>r\<in>set (store w). email r \<noteq> e) \<and>
          b ''password'' = Str p \<and> b ''first_name'' = Str f \<and> b ''last_name'' = Str l \<and>
          (\<not> truthy (b ''job_title'') \<or> (\<exists>s. b ''job_title'' = Str s)) \<and>
          (\<not> truthy (b ''company'') \<or> (\<exists>s. b ''company'' = Str s))"
  then have fresh: "\<forall>r\<in>set (store w). email r \<noteq> e"
    and pw: "b ''password'' = Str p" and fn: "b ''first_name'' = Str f"
    and ln: "b ''last_name'' = Str l"
    and jt: "\<not> truthy (b ''job_title'') \<or> (\<exists>s. b ''job_title'' = Str s)"
    and co: "\<not> truthy (b ''company'') \<or> (\<exists>s. b ''company'' = Str s)"
    by simp_all
  let ?w = "snd (registerUser cp b w)"
  note f = register_fresh[OF assms fresh pw fn ln jt co, of cp]
  have emails: "map email (store ?w) = map email (store w) @ [e]"
    by (simp add: f(4) map_email_stamp)
  have stamped: "\<exists>r\<in>set (store ?w). email r = e \<and>
                   last_login_date r = Some (CURRENT_TIMESTAMP cp)"
    by (simp add: f(4) updateUserLastLoginDate_def id_is_def)
  have taken: "\<exists>r\<in>set (store ?w). email r = e"
    using stamped by blast
  have again: "registerUser cp' b' ?w =
                 (respond 409 [(''message'', Str ''Email already registered.'')],
                  ?w\<lparr>trace := trace ?w @ [GetConnection, BeginTransaction, Rollback, Release]\<rparr>)"
    if "ensureRequiredFieldsPresent b' [''first_name'', ''last_name'', ''email'', ''password''] = None"
      and "b' ''email'' = b ''email''" for cp' b'
    using register_conflict[of b' ?w e cp'] that assms(2,4) f(3) taken by simp
  show "let w' = snd (registerUser cp b w) in
             status_code (fst (registerUser cp b w)) = 201
             \<and> trace w' = trace w @ [GetConnection, BeginTransaction, Commit, Release]
             \<and> pending w' = None
             \<and> map email (store w') = map email (store w) @ [e]
             \<and> (\<exists>r\<in>set (store w'). email r = e \<and>
                   last_login_date r = Some (CURRENT_TIMESTAMP cp))
             \<and> (\<forall>cp' b'.
                   ensureRequiredFieldsPresent b'
                     [''first_name'', ''last_name'', ''email'', ''password''] = None \<and>
                   b' ''email'' = b ''email'' \<longrightarrow>
                   registerUser cp' b' w' =
                     (respond 409 [(''message'', Str ''Email already registered.'')],
                      w'\<lparr>trace := trace w' @ [GetConnection, BeginTransaction, Rollback, Release]\<rparr>))"
    unfolding Let_def using f(1-3) emails stamped again by blast
qed

theorem register_unique_and_atomic_witness:
  "registerUser example_caps
     (no_fields(''first_name'' := Str ''Bob'', ''last_name'' := Str ''Two'',
        ''email'' := Str ''bob@x.io'', ''password'' := Str ''pw'')) example_world =
     (respond 409 [(''message'', Str ''Email already registered.'')],
      example_world\<lparr>trace := [GetConnection, BeginTransaction, Rollback, Release]\<rparr>)
   \<and> status_code (fst (registerUser example_caps
        (no_fields(''first_name'' := Str ''Dee'', ''last_name'' := Str ''Fox'',
           ''email'' := Str ''dee@x.io'', ''password'' := Str ''pw'')) example_world)) = 201
   \<and> map email (store (snd (registerUser example_caps
        (no_fields(''first_name'' := Str ''Dee'', ''last_name'' := Str ''Fox'',
           ''email'' := Str ''dee@x.io'', ''password'' := Str ''pw'')) example_world)))
       = [''ann@x.io'', ''bob@x.io'', ''cyd@x.io'', ''dee@x.io'']
   \<and> status_code (fst (registerUser example_caps
        (no_fields(''first_name'' := Str ''Dee'', ''last_name'' := Str ''Fox'',
           ''email'' := Str ''dee@x.io'', ''password'' := Str ''pw''))
        (snd (registerUser example_caps
          (no_fields(''first_name'' := Str ''Dee'', ''last_name'' := Str ''Fox'',
             ''email'' := Str ''dee@x.io'', ''password'' := Str ''pw'')) example_world)))) = 409"
proof -
  let ?bob = "no_fields(''first_name'' := Str ''Bob'', ''last_name'' := Str ''Two'',
        ''email'' := Str ''bob@x.io'', ''password'' := Str ''pw'')"
  let ?dee = "no_fields(''first_name'' := Str ''Dee'', ''last_name'' := Str ''Fox'',
           ''email'' := Str ''dee@x.io'', ''password'' := Str ''pw'')"
  have vb: "ensureRequiredFieldsPresent ?bob [''first_name'', ''last_name'', ''email'', ''password''] = None"
           "validateEmailFormat (?bob ''email'') = None"
    by (simp_all add: validateEmailFormat_def emailRegex_test_def is_space_def)
  have vd: "ensureRequiredFieldsPresent ?dee [''first_name'', ''last_name'', ''email'', ''password''] = None"
           "validateEmailFormat (?dee ''email'') = None"
    by (simp_all add: validateEmailFormat_def emailRegex_test_def is_space_def)
  have eb: "?bob ''email'' = Str ''bob@x.io''" by simp
  have ed: "?dee ''email'' = Str ''dee@x.io''" by simp
  have idle: "pending example_world = None" by (simp add: example_world_def)
  have taken: "\<exists>r\<in>set (store example_world). email r = ''bob@x.io''"
    by (simp add: example_defs)
  have fresh: "(\<forall>r\<in>set (store example_world). email r \<noteq> ''dee@x.io'') \<and>
          ?dee ''password'' = Str ''pw'' \<and> ?dee ''first_name'' = Str ''Dee'' \<and>
          ?dee ''last_name'' = Str ''Fox'' \<and>
          (\<not> truthy (?dee ''job_title'') \<or> (\<exists>s. ?dee ''job_title'' = Str s)) \<and>
          (\<not> truthy (?dee ''company'') \<or> (\<exists>s. ?dee ''company'' = Str s))"
    by (simp add: example_defs no_fields_def)
  have tr: "trace example_world = []" "map email (store example_world) = [''ann@x.io'', ''bob@x.io'', ''cyd@x.io'']"
    by (simp_all add: example_defs)
  note B = register_unique_and_atomic[OF vb idle eb, of example_caps]
  note D = register_unique_and_atomic[OF vd idle ed, of example_caps "''pw''" "''Dee''" "''Fox''",
             unfolded Let_def]
  have 1: "registerUser example_caps ?bob example_world =
     (respond 409 [(''message'', Str ''Email already registered.'')],
      example_world\<lparr>trace := [GetConnection, BeginTransaction, Rollback, Release]\<rparr>)"
  proof -
    from B taken have "registerUser example_caps ?bob example_world =
     (respond 409 [(''message'', Str ''Email already registered.'')],
      example_world\<lparr>trace := trace example_world @
         [GetConnection, BeginTransaction, Rollback, Release]\<rparr>)"
      by blast
    then show ?thesis by (simp only: tr append_Nil)
  qed
  have 2: "status_code (fst (registerUser example_caps ?dee example_world)) = 201"
    using D fresh by blast
  have 3: "map email (store (snd (registerUser example_caps ?dee example_world)))
       = [''ann@x.io'', ''bob@x.io'', ''cyd@x.io'', ''dee@x.io'']"
  proof -
    from D fresh have "map email (store (snd (registerUser example_caps ?dee example_world)))
        = map email (store example_world) @ [''dee@x.io'']"
      by blast
    then show ?thesis by (simp only: tr append.simps)
  qed
  have "registerUser example_caps ?dee (snd (registerUser example_caps ?dee example_world)) =
          (respond 409 [(''message'', Str ''Email already registered.'')],
           (snd (registerUser example_caps ?dee example_world))
             \<lparr>trace := trace (snd (registerUser example_caps ?dee example_world)) @
                        [GetConnection, BeginTransaction, Rollback, Release]\<rparr>)"
    using D fresh vd(1) by blast
  then have 4: "status_code (fst (registerUser example_caps ?dee
                  (snd (registerUser example_caps ?dee example_world)))) = 409"
    by (simp add: respond_def)
  show ?thesis using 1 2 3 4 by blast
qed

text \<open>
  The claim as it is written promises 201 to every registration with a fresh email that
  passes validation. A password that is the number 123 passes it, the email is fresh, and
  the answer is 500: nothing is stored.
\<close>

theorem register_fresh_email_counterexample:
  "ensureRequiredFieldsPresent
     (no_fields(''first_name'' := Str ''Dee'', ''last_name'' := Str ''Fox'',
        ''email'' := Str ''dee@x.io'', ''password'' := Num 123))
     [''first_name'', ''last_name'', ''email'', ''password''] = None
   \<and> validateEmailFormat (Str ''dee@x.io'') = None
   \<and> ''dee@x.io'' \<notin> set (map email (store example_world))
   \<and> registerUser example_caps
       (no_fields(''first_name'' := Str ''Dee'', ''last_name'' := Str ''Fox'',
          ''email'' := Str ''dee@x.io'', ''password'' := Num 123)) example_world =
       (respond 500 [(''message'', Str (bcrypt_message example_caps))],
        example_world\<lparr>trace := [GetConnection, BeginTransaction, Rollback, Release]\<rparr>)
   \<and> status_code (fst (registerUser example_caps
       (no_fields(''first_name'' := Str ''Dee'', ''last_name'' := Str ''Fox'',
          ''email'' := Str ''dee@x.io'', ''password'' := Num 123)) example_world)) \<noteq> 201"
proof -
  let ?b = "no_fields(''first_name'' := Str ''Dee'', ''last_name'' := Str ''Fox'',
        ''email'' := Str ''dee@x.io'', ''password'' := Num 123)"
  have v: "ensureRequiredFieldsPresent ?b [''first_name'', ''last_name'', ''email'', ''password''] = None"
          "validateEmailFormat (Str ''dee@x.io'') = None"
    by (simp_all add: validateEmailFormat_def emailRegex_test_def is_space_def)
  have fresh: "''dee@x.io'' \<notin> set (map email (store example_world))"
    by (simp add: example_defs)
  have fresh': "\<forall>r\<in>set (store example_world). email r \<noteq> ''dee@x.io''"
    by (simp add: example_defs)
  have m: "bcrypt_message example_caps \<noteq> []" by (simp add: example_caps_def)
  have r: "registerUser example_caps ?b example_world =
       (respond 500 [(''message'', Str (bcrypt_message example_caps))],
        example_world\<lparr>trace := [GetConnection, BeginTransaction, Rollback, Release]\<rparr>)"
    using register_password_not_string[of ?b example_world "''dee@x.io''" example_caps] v fresh' m
    by (simp add: example_world_def)
  show ?thesis
    using v fresh r by (simp add: respond_def)
qed

section \<open>Blocked accounts\<close>

lemma blocked_login:
  assumes "u \<in> set (store w)" "status u = ''blocked''" "pending w = None"
    "distinct (map email (store w))"
    "b ''email'' = Str (email u)" "b ''password'' = Str pw" "pw \<noteq> []"
    "emailRegex_test (email u)"
    "bcrypt_compare cp pw (password_hash u)"
  shows "loginUser cp b w =
          (respond 403 [(''message'', Str ''Account is blocked. Please contact support.'')],
           w\<lparr>trace := trace w @ [GetConnection, BeginTransaction, Rollback, Release]\<rparr>)"
proof -
  have ne: "email u \<noteq> []" using assms(8) by (auto simp: emailRegex_test_def)
  have f: "filter (\<lambda>r. email r = email u) (store w) = [u]"
    using filter_unique[OF assms(4) assms(1)] .
  show ?thesis
    using assms ne f
    by (simp add: loginUser_def sql_text_def validateEmailFormat_def
          findUserByEmailInDB_def conn_defs fld_login)
qed

lemma blocked_guard:
  assumes "u \<in> set (store w)" "status u = ''blocked''" "pending w = None"
    "distinct (map id_col (store w))"
    "startsWith h ''Bearer''" "at_index (split_on CHR '' '' h) 1 = Some tok" "tok \<noteq> []"
    "jwt_decode cp tok = Some payload" "fld payload ''exp'' = Num e" "clock cp < e"
    "fld payload ''userId'' = Num (int (id_col u))"
  shows "protect cp (Some h) w =
          (Rejected (respond 403 [(''message'', Str ''Forbidden: Your account is blocked.'')]),
           w\<lparr>trace := trace w @ [GetConnection, Release]\<rparr>)"
proof -
  have "h \<noteq> []" using assms(5) by (auto simp: startsWith_def)
  have "filter (\<lambda>r. id_col r = id_col u) (store w) = [u]"
    using filter_unique[OF assms(4) assms(1)] .
  moreover have "id_is (Num (int (id_col u))) = (\<lambda>r. id_col r = id_col u)"
    by (auto simp: id_is_def fun_eq_iff)
  ultimately have f: "filter (id_is (Num (int (id_col u)))) (store w) = [u]"
    by simp
  show ?thesis
    using assms \<open>h \<noteq> []\<close> f
    by (simp add: protect_def falsy_def or_empty_def jwt_verify_def getUserForAuth_def
          conn_defs fld_auth)
qed

text \<open>
  C7. Let \<open>u\<close> be a stored user whose status is \<^verbatim>\<open>blocked\<close>, in a table with unique emails
  and unique ids, and let no transaction be open. A login with the email of \<open>u\<close> (which
  has the shape registration demands) and a non-empty password that verifies against
  the digest of \<open>u\<close> is answered 403: the body holds the message only (no token), the
  transaction is rolled back and the table, with the login date of \<open>u\<close>, is as it was.
  A request whose header starts with \<^verbatim>\<open>Bearer\<close> and carries a token that decodes, has not
  expired and names the id of \<open>u\<close> is answered 403 by the middleware, which reads the
  status from the table at the time of the request.
\<close>

theorem blocked_account_gating:
  assumes "u \<in> set (store w)" and "status u = ''blocked''" and "pending w = None"
    and "distinct (map email (store w))" and "distinct (map id_col (store w))"
  shows "(b ''email'' = Str (email u) \<and> b ''password'' = Str pw \<and> pw \<noteq> [] \<and>
          emailRegex_test (email u) \<and> bcrypt_compare cp pw (password_hash u) \<longrightarrow>
            loginUser cp b w =
              (respond 403 [(''message'', Str ''Account is blocked. Please contact support.'')],
               w\<lparr>trace := trace w @ [GetConnection, BeginTransaction, Rollback, Release]\<rparr>))
       \<and> (startsWith h ''Bearer'' \<and> at_index (split_on CHR '' '' h) 1 = Some tok \<and> tok \<noteq> [] \<and>
          jwt_decode cp tok = Some payload \<and> fld payload ''exp'' = Num e \<and> clock cp < e \<and>
          fld payload ''userId'' = Num (int (id_col u)) \<longrightarrow>
            protect cp (Some h) w =
              (Rejected (respond 403 [(''message'', Str ''Forbidden: Your account is blocked.'')]),
               w\<lparr>trace := trace w @ [GetConnection, Release]\<rparr>))"
  using blocked_login[OF assms(1-4)] blocked_guard[OF assms(1-3) assms(5)]
  by blast

theorem blocked_account_gating_witness:
  "loginUser example_caps (no_fields(''email'' := Str ''bob@x.io'', ''password'' := Str ''pw-bob''))
     example_world =
     (respond 403 [(''message'', Str ''Account is blocked. Please contact support.'')],
      example_world\<lparr>trace := [GetConnection, BeginTransaction, Rollback, Release]\<rparr>)
   \<and> protect example_caps (Some ''Bearer bob.token'') example_world =
     (Rejected (respond 403 [(''message'', Str ''Forbidden: Your account is blocked.'')]),
      example_world\<lparr>trace := [GetConnection, Release]\<rparr>)"
proof -
  let ?b = "no_fields(''email'' := Str ''bob@x.io'', ''password'' := Str ''pw-bob'')"
  let ?payload = "[(''userId'', Num 2), (''email'', Str ''bob@x.io''),
                   (''iat'', Num 1799999900), (''exp'', Num 1800000500)]"
  have u: "bob \<in> set (store example_world)" "status bob = ''blocked''"
          "pending example_world = None"
          "distinct (map email (store example_world))"
          "distinct (map id_col (store example_world))"
    by (simp_all add: example_defs)
  have l: "?b ''email'' = Str (email bob)" "?b ''password'' = Str ''pw-bob''" "''pw-bob'' \<noteq> []"
          "emailRegex_test (email bob)" "bcrypt_compare example_caps ''pw-bob'' (password_hash bob)"
    by (simp_all add: example_defs emailRegex_test_def is_space_def)
  have g: "startsWith ''Bearer bob.token'' ''Bearer''"
          "at_index (split_on CHR '' '' ''Bearer bob.token'') 1 = Some ''bob.token''"
          "''bob.token'' \<noteq> []"
          "jwt_decode example_caps ''bob.token'' = Some ?payload"
          "fld ?payload ''exp'' = Num 1800000500" "clock example_caps < 1800000500"
          "fld ?payload ''userId'' = Num (int (id_col bob))"
    by (simp_all add: startsWith_def at_index_def example_defs fld_def)
  have tr: "trace example_world = []" by (simp add: example_world_def)
  note T = blocked_account_gating[OF u, of ?b "''pw-bob''" example_caps "''Bearer bob.token''"
             "''bob.token''" ?payload 1800000500]
  from T l have 1: "loginUser example_caps ?b example_world =
     (respond 403 [(''message'', Str ''Account is blocked. Please contact support.'')],
      example_world\<lparr>trace := trace example_world @
         [GetConnection, BeginTransaction, Rollback, Release]\<rparr>)"
    by blast
  from T g have 2: "protect example_caps (Some ''Bearer bob.token'') example_world =
     (Rejected (respond 403 [(''message'', Str ''Forbidden: Your account is blocked.'')]),
      example_world\<lparr>trace := trace example_world @ [GetConnection, Release]\<rparr>)"
    by blast
  show ?thesis using 1 2 by (simp only: tr append_Nil) 
qed

section \<open>The scheme check of the middleware\<close>

lemma split_on_nonempty: "split_on c s \<noteq> []"
  by (induction s) (auto split: list.splits)

lemma split_on_prefix: "c \<notin> set p \<Longrightarrow> split_on c (p @ c # t) = p # split_on c t"
  by (induction p) (auto split: list.splits simp: split_on_nonempty)

lemma split_on_whole: "c \<notin> set p \<Longrightarrow> split_on c p = [p]"
  by (induction p) (auto split: list.splits)

text \<open>The token the middleware takes from a header of one part and from one of two parts.\<close>

lemma token_of_one_part:
  "CHR '' '' \<notin> set p \<Longrightarrow> at_index (split_on CHR '' '' p) 1 = None"
  by (simp add: split_on_whole at_index_def)

lemma token_of_two_parts:
  "CHR '' '' \<notin> set p \<Longrightarrow> CHR '' '' \<notin> set tok \<Longrightarrow>
     at_index (split_on CHR '' '' (p @ '' '' @ tok)) 1 = Some tok"
  by (simp add: split_on_prefix split_on_whole at_index_def)

lemma startsWith_append: "startsWith p q \<Longrightarrow> startsWith (p @ s) q"
  by (auto simp: startsWith_def take_Cons' dest!: arg_cong[where f = length] split: if_splits)

text \<open>
  C9. The scheme check is the test that the header starts with \<^verbatim>\<open>Bearer\<close>: a header that
  does is never answered with the message \<^verbatim>\<open>no Bearer token provided\<close>, and a header that
  does not (or no header) always is. Let \<open>p\<close> start with \<^verbatim>\<open>Bearer\<close> and hold no space
  (\<^verbatim>\<open>Bearer\<close>, \<^verbatim>\<open>BearerX\<close>). The header \<open>p\<close> alone has no second part: the token is
  undefined and the answer is 401 with the message for an invalid token, before any
  connection is taken; so it is for \<open>p\<close> followed by a space only. The header \<open>p\<close>, a
  space and a token \<open>tok\<close> is handled by verifying \<open>tok\<close>: an error of the
  verification is answered by the \<^verbatim>\<open>catch\<close> block with no connection taken, and a decoded
  payload leads to the lookup of the user it names, who is let through unless missing or
  blocked.
\<close>

theorem bearer_scheme_edge_cases:
  assumes "startsWith p ''Bearer''" and "CHR '' '' \<notin> set p" and "CHR '' '' \<notin> set tok"
  shows
  "(startsWith h ''Bearer'' \<longrightarrow>
      fst (protect cp (Some h) w) \<noteq>
        Rejected (respond 401 [(''message'', Str ''Not authorized, no Bearer token provided'')]))
   \<and> (\<not> startsWith h ''Bearer'' \<longrightarrow>
      protect cp (Some h) w =
        (Rejected (respond 401 [(''message'', Str ''Not authorized, no Bearer token provided'')]), w))
   \<and> protect cp None w =
        (Rejected (respond 401 [(''message'', Str ''Not authorized, no Bearer token provided'')]), w)
   \<and> at_index (split_on CHR '' '' p) 1 = None
   \<and> protect cp (Some p) w =
        (Rejected (respond 401
           [(''message'', Str ''Not authorized, invalid token (e.g., signature mismatch or malformed)'')]), w)
   \<and> protect cp (Some (p @ '' '')) w =
        (Rejected (respond 401
           [(''message'', Str ''Not authorized, invalid token (e.g., signature mismatch or malformed)'')]), w)
   \<and> at_index (split_on CHR '' '' (p @ '' '' @ tok)) 1 = Some tok
   \<and> (jwt_verify cp (Some tok) = JwtThrows error \<longrightarrow>
        protect cp (Some (p @ '' '' @ tok)) w = (Rejected (protect_catch cp error), w))
   \<and> (jwt_verify cp (Some tok) = Decoded decoded \<longrightarrow>
        protect cp (Some (p @ '' '' @ tok)) w =
          (if fld decoded ''userId'' = Undefined
           then Rejected (respond 401
                  [(''message'', Str ''Not authorized, token verification process failed'')])
           else case getUserForAuth (fld decoded ''userId'') (view w) of
             None \<Rightarrow> Rejected (respond 401
                       [(''message'', Str ''Not authorized, user associated with token not found'')])
           | Some currentUser \<Rightarrow>
               if fld currentUser ''status'' = Str ''blocked''
               then Rejected (respond 403 [(''message'', Str ''Forbidden: Your account is blocked.'')])
               else Next currentUser,
           w\<lparr>trace := trace w @ [GetConnection, Release]\<rparr>))"
proof (intro conjI impI)
  assume "startsWith h ''Bearer''"
  then have "h \<noteq> []" by (auto simp: startsWith_def)
  with \<open>startsWith h ''Bearer''\<close>
  show "fst (protect cp (Some h) w) \<noteq>
        Rejected (respond 401 [(''message'', Str ''Not authorized, no Bearer token provided'')])"
    by (auto simp: protect_def protect_catch_def respond_def falsy_def or_empty_def Let_def
             split: jwt_result.splits option.splits)
next
  assume "\<not> startsWith h ''Bearer''"
  then show "protect cp (Some h) w =
        (Rejected (respond 401 [(''message'', Str ''Not authorized, no Bearer token provided'')]), w)"
    by (simp add: protect_def or_empty_def)
next
  show "protect cp None w =
        (Rejected (respond 401 [(''message'', Str ''Not authorized, no Bearer token provided'')]), w)"
    by (simp add: protect_def falsy_def)
next
  show "at_index (split_on CHR '' '' p) 1 = None"
    by (rule token_of_one_part[OF assms(2)])
next
  have "p \<noteq> []" using assms(1) by (auto simp: startsWith_def)
  then show "protect cp (Some p) w =
        (Rejected (respond 401
           [(''message'', Str ''Not authorized, invalid token (e.g., signature mismatch or malformed)'')]), w)"
    using assms(1)
    by (simp add: protect_def falsy_def or_empty_def token_of_one_part[OF assms(2), simplified]
          jwt_verify_def protect_catch_def)
next
  have s: "startsWith (p @ '' '') ''Bearer''"
    by (rule startsWith_append[OF assms(1)])
  have t: "at_index (split_on CHR '' '' (p @ '' '')) 1 = Some []"
    using token_of_two_parts[OF assms(2), of "[]"] by simp
  show "protect cp (Some (p @ '' '')) w =
        (Rejected (respond 401
           [(''message'', Str ''Not authorized, invalid token (e.g., signature mismatch or malformed)'')]), w)"
    using s
    by (simp add: protect_def falsy_def or_empty_def t[simplified] jwt_verify_def protect_catch_def)
next
  show "at_index (split_on CHR '' '' (p @ '' '' @ tok)) 1 = Some tok"
    by (rule token_of_two_parts[OF assms(2,3)])
next
  assume v: "jwt_verify cp (Some tok) = JwtThrows error"
  have s: "startsWith (p @ '' '' @ tok) ''Bearer''"
    by (rule startsWith_append[OF assms(1)])
  show "protect cp (Some (p @ '' '' @ tok)) w = (Rejected (protect_catch cp error), w)"
    using s
    by (simp add: protect_def falsy_def or_empty_def token_of_two_parts[OF assms(2,3), simplified] v)
next
  assume v: "jwt_verify cp (Some tok) = Decoded decoded"
  have s: "startsWith (p @ '' '' @ tok) ''Bearer''"
    by (rule startsWith_append[OF assms(1)])
  show "protect cp (Some (p @ '' '' @ tok)) w =
          (if fld decoded ''userId'' = Undefined
           then Rejected (respond 401
                  [(''message'', Str ''Not authorized, token verification process failed'')])
           else case getUserForAuth (fld decoded ''userId'') (view w) of
             None \<Rightarrow> Rejected (respond 401
                       [(''message'', Str ''Not authorized, user associated with token not found'')])
           | Some currentUser \<Rightarrow>
               if fld currentUser ''status'' = Str ''blocked''
               then Rejected (respond 403 [(''message'', Str ''Forbidden: Your account is blocked.'')])
               else Next currentUser,
           w\<lparr>trace := trace w @ [GetConnection, Release]\<rparr>)"
    using s
    by (simp add: protect_def falsy_def or_empty_def token_of_two_parts[OF assms(2,3), simplified] v
          view_getConnection protect_catch_def Let_def)
       (simp add: getConnection_def release_def split: option.splits)
qed

theorem bearer_scheme_edge_cases_witness:
  "startsWith ''BearerX'' ''Bearer''
   \<and> protect example_caps (Some ''BearerX'') example_world =
        (Rejected (respond 401
           [(''message'', Str ''Not authorized, invalid token (e.g., signature mismatch or malformed)'')]),
         example_world)
   \<and> jwt_verify example_caps (Some ''ann.token'') =
        Decoded [(''userId'', Num 1), (''email'', Str ''ann@x.io''),
                 (''iat'', Num 1799999900), (''exp'', Num 1800000500)]
   \<and> protect example_caps (Some ''BearerX ann.token'') example_world =
        (Next [(''id'', Num 1), (''email'', Str ''ann@x.io''), (''status'', Str ''active'')],
         example_world\<lparr>trace := [GetConnection, Release]\<rparr>)
   \<and> jwt_verify example_caps (Some ''junk'') =
        JwtThrows \<lparr>err_name = ''JsonWebTokenError'', expiredAt = None\<rparr>
   \<and> protect example_caps (Some ''BearerX junk'') example_world =
        (Rejected (respond 401
           [(''message'', Str ''Not authorized, invalid token (e.g., signature mismatch or malformed)'')]),
         example_world)
   \<and> fst (protect example_caps (Some ''BearerX ann.token'') example_world) \<noteq>
        Rejected (respond 401 [(''message'', Str ''Not authorized, no Bearer token provided'')])
   \<and> protect example_caps (Some ''Basic ann.token'') example_world =
        (Rejected (respond 401 [(''message'', Str ''Not authorized, no Bearer token provided'')]),
         example_world)"
proof -
  let ?payload = "[(''userId'', Num 1), (''email'', Str ''ann@x.io''),
                 (''iat'', Num 1799999900), (''exp'', Num 1800000500)]"
  have s: "startsWith ''BearerX'' ''Bearer''" "CHR '' '' \<notin> set ''BearerX''"
          "CHR '' '' \<notin> set ''ann.token''" "CHR '' '' \<notin> set ''junk''"
          "startsWith ''BearerX ann.token'' ''Bearer''" "\<not> startsWith ''Basic ann.token'' ''Bearer''"
    by (simp_all add: startsWith_def)
  have v1: "jwt_verify example_caps (Some ''ann.token'') = Decoded ?payload"
    by (simp add: jwt_verify_def falsy_def or_empty_def example_caps_def example_decode_def fld_def)
  have v2: "jwt_verify example_caps (Some ''junk'') =
        JwtThrows \<lparr>err_name = ''JsonWebTokenError'', expiredAt = None\<rparr>"
    by (simp add: jwt_verify_def falsy_def or_empty_def example_caps_def example_decode_def)
  have u: "getUserForAuth (fld ?payload ''userId'') (view example_world) =
             Some [(''id'', Num 1), (''email'', Str ''ann@x.io''), (''status'', Str ''active'')]"
    by (simp add: getUserForAuth_def fld_def view_def id_is_def select_def authColumns_def col_def
          example_world_def ann_def bob_def cyd_def)
  have tr: "trace example_world = []" by (simp add: example_world_def)
  note A = bearer_scheme_edge_cases[OF s(1-3), of "''BearerX ann.token''" example_caps example_world
             "\<lparr>err_name = ''JsonWebTokenError'', expiredAt = None\<rparr>" ?payload]
  note J = bearer_scheme_edge_cases[OF s(1,2,4), of "''Basic ann.token''" example_caps example_world
             "\<lparr>err_name = ''JsonWebTokenError'', expiredAt = None\<rparr>" ?payload]
  from A have 1: "protect example_caps (Some ''BearerX'') example_world =
        (Rejected (respond 401
           [(''message'', Str ''Not authorized, invalid token (e.g., signature mismatch or malformed)'')]),
         example_world)"
    by blast
  from A v1 have "protect example_caps (Some (''BearerX'' @ '' '' @ ''ann.token'')) example_world =
          (if fld ?payload ''userId'' = Undefined
           then Rejected (respond 401
                  [(''message'', Str ''Not authorized, token verification process failed'')])
           else case getUserForAuth (fld ?payload ''userId'') (view example_world) of
             None \<Rightarrow> Rejected (respond 401
                       [(''message'', Str ''Not authorized, user associated with token not found'')])
           | Some currentUser \<Rightarrow>
               if fld currentUser ''status'' = Str ''blocked''
               then Rejected (respond 403 [(''message'', Str ''Forbidden: Your account is blocked.'')])
               else Next currentUser,
           example_world\<lparr>trace := trace example_world @ [GetConnection, Release]\<rparr>)"
    by blast
  then have 2: "protect example_caps (Some ''BearerX ann.token'') example_world =
        (Next [(''id'', Num 1), (''email'', Str ''ann@x.io''), (''status'', Str ''active'')],
         example_world\<lparr>trace := [GetConnection, Release]\<rparr>)"
    unfolding u tr by (simp add: fld_def)
  from J v2 have "protect example_caps (Some (''BearerX'' @ '' '' @ ''junk'')) example_world =
        (Rejected (protect_catch example_caps \<lparr>err_name = ''JsonWebTokenError'', expiredAt = None\<rparr>),
         example_world)"
    by blast
  then have 3: "protect example_caps (Some ''BearerX junk'') example_world =
        (Rejected (respond 401
           [(''message'', Str ''Not authorized, invalid token (e.g., signature mismatch or malformed)'')]),
         example_world)"
    by (simp add: protect_catch_def)
  from A s(5) have 4: "fst (protect example_caps (Some ''BearerX ann.token'') example_world) \<noteq>
        Rejected (respond 401 [(''message'', Str ''Not authorized, no Bearer token provided'')])"
    by blast
  from J s(6) have 5: "protect example_caps (Some ''Basic ann.token'') example_world =
        (Rejected (respond 401 [(''message'', Str ''Not authorized, no Bearer token provided'')]),
         example_world)"
    by blast
  show ?thesis using s(1) 1 v1 2 v2 3 4 5 by blast
qed

section \<open>Numbers read by \<^verbatim>\<open>parseInt\<close>\<close>

lemma shift_of_small: "n < 2 ^ 53 \<Longrightarrow> shift_of n = 0"
  by (subst shift_of.simps) simp

lemma shift_of_large: "\<not> n < 2 ^ 53 \<Longrightarrow> shift_of n = Suc (shift_of (n div 2))"
  by (subst shift_of.simps) simp

lemma shift_of_le: "0 < n \<Longrightarrow> 2 ^ shift_of n \<le> n"
proof (induction n rule: shift_of.induct)
  case (1 n)
  show ?case
  proof (cases "n < 2 ^ 53")
    case True
    then show ?thesis using "1.prems" by (simp add: shift_of_small)
  next
    case False
    then have "0 < n div 2" by simp
    with "1.IH"[OF False] have "2 ^ shift_of (n div 2) \<le> n div 2" .
    then have "2 * 2 ^ shift_of (n div 2) \<le> 2 * (n div 2)" by simp
    also have "\<dots> \<le> n" by simp
    finally show ?thesis by (simp add: shift_of_large[OF False])
  qed
qed

text \<open>An integer up to \<open>2 ^ 53\<close> is a number as it is.\<close>

lemma to_number_exact:
  assumes "n \<le> 2 ^ 53"
  shows "to_number n = Finite (int n)"
proof (cases "n < 2 ^ 53")
  case True
  have "(2::nat) ^ 53 \<le> 2 ^ 1024" by (rule power_increasing) simp_all
  with True have "\<not> 2 ^ 1024 \<le> n" by linarith
  then show ?thesis
    by (simp add: to_number_def shift_of_small[OF True] Let_def del: power_numeral)
next
  case False
  with assms have n: "n = 2 ^ 53" by simp
  have s: "shift_of (2 ^ 53) = 1"
    by (simp add: shift_of_large shift_of_small)
  have "(2::nat) ^ 53 < 2 ^ 1024" by (rule power_strict_increasing) simp_all
  then have b: "\<not> (2::nat) ^ 1024 \<le> 2 ^ 53" by linarith
  have m: "(2::nat) ^ 53 mod 2 = 0" "(2::nat) ^ 53 div 2 * 2 = 2 ^ 53" "\<not> odd ((2::nat) ^ 53 div 2)"
    by simp_all
  show ?thesis
    unfolding n to_number_def s Let_def
    using b m by (simp del: power_numeral)
qed

text \<open>From \<open>2 ^ 1024\<close> on, an integer is read as \<^verbatim>\<open>Infinity\<close>.\<close>

lemma to_number_Infinity:
  assumes "2 ^ 1024 \<le> n"
  shows "to_number n = Infinity"
proof -
  define e where "e = shift_of n"
  define q where "q = n div 2 ^ e"
  have pos: "0 < n" using assms by (metis gr0I not_less_eq_eq power_eq_0_iff le_0_eq zero_neq_numeral)
  have q1: "1 \<le> q"
    using shift_of_le[OF pos] by (simp add: q_def e_def div_greater_zero_iff Suc_le_eq)
  have big: "2 ^ 1024 \<le> q * 2 ^ e"
  proof (cases "e \<le> 1024")
    case True
    have "(2::nat) ^ 1024 = 2 ^ (1024 - e) * 2 ^ e"
      using True by (simp add: power_add[symmetric])
    moreover have "(2::nat) ^ (1024 - e) \<le> q"
    proof -
      have "(2::nat) ^ 1024 div 2 ^ e \<le> n div 2 ^ e"
        by (rule div_le_mono[OF assms])
      moreover have "(2::nat) ^ 1024 div 2 ^ e = 2 ^ (1024 - e)"
        using True by (simp add: power_diff)
      ultimately show ?thesis by (simp add: q_def)
    qed
    ultimately show ?thesis by (metis mult_le_mono1)
  next
    case False
    then have "(2::nat) ^ 1024 \<le> 2 ^ e" by (intro power_increasing) simp_all
    also have "\<dots> \<le> q * 2 ^ e" using q1 by simp
    finally show ?thesis .
  qed
  have up: "2 ^ 1024 \<le> (q + 1) * 2 ^ e"
    using big by (metis add_mult_distrib trans_le_add1)
  show ?thesis
    using big up
    by (simp add: to_number_def Let_def e_def[symmetric] q_def[symmetric] del: power_numeral)
qed

text \<open>The number read is positive exactly when the integer is.\<close>

lemma to_number_positive: "positive (to_number n) = (0 < n)"
proof (cases "0 < n")
  case False
  then have "n = 0" by simp
  then show ?thesis
    by (simp add: to_number_exact positive_def)
next
  case True
  define e where "e = shift_of n"
  define q where "q = n div 2 ^ e"
  have q1: "0 < q"
    using shift_of_le[OF True] by (simp add: q_def e_def div_greater_zero_iff)
  show ?thesis
    using True q1
    by (simp add: to_number_def Let_def e_def[symmetric] q_def[symmetric] positive_def
          del: power_numeral)
qed

section \<open>Coercion of the ids of a bulk request\<close>

lemma digit_not_sign: "is_digit c \<Longrightarrow> \<not> is_space c \<and> c \<noteq> CHR ''-'' \<and> c \<noteq> CHR ''+''"
  by (auto simp: is_digit_def is_space_def)

lemma parseInt_prefix:
  assumes "ds \<noteq> []" and "list_all is_digit ds" and "rest = [] \<or> \<not> is_digit (hd rest)"
  shows "parseInt (ds @ rest) = to_number (digits_val ds)"
proof -
  obtain d ds' where ds: "ds = d # ds'" using assms(1) by (cases ds) auto
  have d: "is_digit d" using assms(2) ds by simp
  have tw: "takeWhile is_digit (ds @ rest) = ds"
    using assms(2,3) by (cases rest) (auto simp: list_all_iff takeWhile_append2)
  have dw: "dropWhile is_space (ds @ rest) = ds @ rest"
    using d digit_not_sign ds by simp
  show ?thesis
    unfolding parseInt_def dw using tw d digit_not_sign[OF d] assms(1)
    by (simp add: Let_def ds)
qed

lemma coerce_ids_count:
  "positive x \<Longrightarrow>
     count_list (coerce_ids ids) x = length (filter (\<lambda>v. parseInt (to_string v) = x) ids)"
  by (induction ids) (auto simp: coerce_ids_def)

lemma coerce_ids_positive:
  "n \<in> set (coerce_ids ids) \<Longrightarrow> n = Infinity \<or> (\<exists>k. n = Finite k \<and> 0 < k)"
  by (auto simp: coerce_ids_def positive_def split: number.splits)

lemma bulk_delete_uses_coerced_ids:
  assumes "userIds b = Arr ids" and "coerce_ids ids \<noteq> []" and "Infinity \<notin> set (coerce_ids ids)"
    and "pending w = None"
  shows "view (snd (deleteMultipleUsers b w)) = filter (\<lambda>r. \<not> id_in (coerce_ids ids) r) (store w)"
proof -
  have "ids \<noteq> []" using assms(2) by (auto simp: coerce_ids_def)
  then show ?thesis
    using assms
    by (simp add: deleteMultipleUsers_def deleteMultipleUsersFromDB_def conn_defs Let_def)
qed

lemma bulk_update_uses_coerced_ids:
  assumes "userIds b = Arr ids" and "coerce_ids ids \<noteq> []" and "Infinity \<notin> set (coerce_ids ids)"
    and "pending w = None"
    and "status_field b = Str st" and "toLowerCase st \<in> set [''active'', ''blocked'']"
  shows "view (snd (updateMultipleUsersStatus b w)) =
           map (\<lambda>r. if id_in (coerce_ids ids) r then r\<lparr>status := toLowerCase st\<rparr> else r) (store w)"
proof -
  have "ids \<noteq> []" using assms(2) by (auto simp: coerce_ids_def)
  moreover have "st \<noteq> []" using assms(6) by (auto simp: toLowerCase_def)
  ultimately show ?thesis
    using assms
    by (simp add: updateMultipleUsersStatus_def updateStatusForMultipleUsersInDB_def conn_defs
          Let_def)
qed

text \<open>
  An id list that holds \<^verbatim>\<open>Infinity\<close> makes the statement fail: both operations roll back
  and answer 500.
\<close>

lemma bulk_delete_Infinity:
  assumes "userIds b = Arr ids" and "Infinity \<in> set (coerce_ids ids)" and "pending w = None"
  shows "deleteMultipleUsers b w =
           (respond 500 [(''message'', Str ''An error occurred while deleting users.'')],
            w\<lparr>trace := trace w @ [GetConnection, BeginTransaction, Rollback, Release]\<rparr>)"
proof -
  have "ids \<noteq> []" using assms(2) by (auto simp: coerce_ids_def)
  moreover have "coerce_ids ids \<noteq> []" using assms(2) by auto
  ultimately show ?thesis
    using assms
    by (simp add: deleteMultipleUsers_def deleteMultipleUsersFromDB_def delete_catch_def Let_def)
       (simp add: conn_defs)
qed

lemma bulk_update_Infinity:
  assumes "userIds b = Arr ids" and "Infinity \<in> set (coerce_ids ids)" and "pending w = None"
    and "status_field b = Str st" and "toLowerCase st \<in> set [''active'', ''blocked'']"
  shows "updateMultipleUsersStatus b w =
           (respond 500 [(''message'', Str ''An error occurred while updating user statuses.'')],
            w\<lparr>trace := trace w @ [GetConnection, BeginTransaction, Rollback, Release]\<rparr>)"
proof -
  have "ids \<noteq> []" using assms(2) by (auto simp: coerce_ids_def)
  moreover have "coerce_ids ids \<noteq> []" using assms(2) by auto
  moreover have "st \<noteq> []" using assms(5) by (auto simp: toLowerCase_def)
  ultimately show ?thesis
    using assms
    by (simp add: updateMultipleUsersStatus_def updateStatusForMultipleUsersInDB_def
          update_catch_def Let_def)
       (simp add: conn_defs)
qed

text \<open>A run of four hundred nines is read as \<^verbatim>\<open>Infinity\<close>, and the deletion answers 500.\<close>

lemma digits_val_snoc: "digits_val (ds @ [c]) = 10 * digits_val ds + digit_val c"
  by (simp add: digits_val_def)

lemma digits_val_nines: "Suc (digits_val (replicate k CHR ''9'')) = 10 ^ k"
proof (induction k)
  case 0
  then show ?case by (simp add: digits_val_def)
next
  case (Suc k)
  have "replicate (Suc k) CHR ''9'' = replicate k CHR ''9'' @ [CHR ''9'']"
    by (simp add: replicate_append_same)
  then have "digits_val (replicate (Suc k) CHR ''9'') = 10 * digits_val (replicate k CHR ''9'') + 9"
    by (simp only: digits_val_snoc) (simp add: digit_val_def)
  then show ?case using Suc by simp
qed

lemma parseInt_nines: "parseInt (replicate 400 CHR ''9'') = Infinity"
proof -
  have "(2::nat) ^ 1024 < 2 ^ 1200" by (rule power_strict_increasing) simp_all
  also have "(2::nat) ^ 1200 = 8 ^ 400"
    using power_mult[of "2::nat" 3 400] by simp
  also have "(8::nat) ^ 400 \<le> 10 ^ 400" by (rule power_mono) simp_all
  finally have "(2::nat) ^ 1024 < Suc (digits_val (replicate 400 CHR ''9''))"
    by (simp only: digits_val_nines)
  then have big: "2 ^ 1024 \<le> digits_val (replicate 400 CHR ''9'')" by simp
  have "parseInt (replicate 400 CHR ''9'' @ []) = to_number (digits_val (replicate 400 CHR ''9''))"
    by (rule parseInt_prefix) (simp_all add: list_all_iff is_digit_def)
  then show ?thesis by (simp add: to_number_Infinity[OF big])
qed

lemma bulk_delete_Infinity_example:
  "deleteMultipleUsers \<lparr>userIds = Arr [Str (replicate 400 CHR ''9'')], status_field = Undefined\<rparr>
     example_world =
     (respond 500 [(''message'', Str ''An error occurred while deleting users.'')],
      example_world\<lparr>trace := [GetConnection, BeginTransaction, Rollback, Release]\<rparr>)"
proof -
  have c: "coerce_ids [Str (replicate 400 CHR ''9'')] = [Infinity]"
    by (simp add: coerce_ids_def parseInt_nines positive_def)
  show ?thesis
    using bulk_delete_Infinity
            [of "\<lparr>userIds = Arr [Str (replicate 400 CHR ''9'')], status_field = Undefined\<rparr>"
                "[Str (replicate 400 CHR ''9'')]" example_world]
    by (simp add: c example_world_def)
qed

text \<open>A number that is read is within half a unit in the last place of the integer.\<close>

lemma to_number_nearest:
  assumes "to_number n = Finite k"
  shows "2 * \<bar>k - int n\<bar> \<le> 2 ^ shift_of n"
proof -
  define P where "P = (2::nat) ^ shift_of n"
  define q where "q = n div P"
  define r where "r = n mod P"
  define X where "X = q * P"
  have tn: "to_number n =
    (let q' = (if P < 2 * r \<or> (2 * r = P \<and> odd q) then q + 1 else q)
     in if 2 ^ 1024 \<le> q' * P then Infinity else Finite (int (q' * P)))"
    unfolding to_number_def Let_def r_def q_def P_def by (rule refl)
  have "n = X + r" by (simp add: X_def q_def r_def)
  then have n: "int n = int X + int r" by (simp only: of_nat_add)
  have r: "r < P" by (simp add: r_def P_def)
  have "(q + 1) * P = X + P" by (simp add: X_def)
  then have up: "int ((q + 1) * P) = int X + int P" by (simp only: of_nat_add)
  have P: "int P = 2 ^ shift_of n" by (simp add: P_def)
  show ?thesis
  proof (cases "P < 2 * r \<or> (2 * r = P \<and> odd q)")
    case True
    have "to_number n =
            (if 2 ^ 1024 \<le> (q + 1) * P then Infinity else Finite (int ((q + 1) * P)))"
      unfolding tn Let_def using True by (simp only: if_True)
    with assms have "k = int ((q + 1) * P)"
      by (cases "2 ^ 1024 \<le> (q + 1) * P") (simp_all only: if_True if_False number.simps)
    then have k: "k = int X + int P" by (simp only: up)
    from True have "P \<le> 2 * r" by auto
    then have "int P \<le> 2 * int r" by linarith
    moreover have "int r < int P" using r by simp
    ultimately have "2 * \<bar>k - int n\<bar> \<le> int P" unfolding k n by (simp add: abs_if)
    then show ?thesis by (simp only: P)
  next
    case False
    have "to_number n = (if 2 ^ 1024 \<le> q * P then Infinity else Finite (int (q * P)))"
      unfolding tn Let_def using False by (simp only: if_False)
    with assms have "k = int (q * P)"
      by (cases "2 ^ 1024 \<le> q * P") (simp_all only: if_True if_False number.simps)
    then have k: "k = int X" by (simp only: X_def)
    from False have "2 * r \<le> P" by auto
    then have "2 * int r \<le> int P" by linarith
    then have "2 * \<bar>k - int n\<bar> \<le> int P" unfolding k n by (simp add: abs_if)
    then show ?thesis by (simp only: P)
  qed
qed

text \<open>
  C10, as the code has it. \<^verbatim>\<open>parseInt\<close> reads a non-empty run of digits that is followed
  by nothing or by a character that is not a digit as the number of the integer those
  digits write: the integer itself up to \<open>2 ^ 53\<close>, \<^verbatim>\<open>Infinity\<close> from \<open>2 ^ 1024\<close> on, and in
  between an integer within half a unit in the last place of it; the number is positive
  when the integer is. Of the entries of \<^verbatim>\<open>userIds\<close>, those that parse to a positive number
  are kept, each as often as it occurs, and nothing else is. Both bulk operations act on
  the rows whose id is among the kept numbers, when \<^verbatim>\<open>Infinity\<close> is not among them: the
  deletion removes them, the status update sets their status.
\<close>

theorem id_coercion_by_prefix_parsing:
  "(ds \<noteq> [] \<and> list_all is_digit ds \<and> (rest = [] \<or> \<not> is_digit (hd rest)) \<longrightarrow>
      parseInt (ds @ rest) = to_number (digits_val ds)
      \<and> (digits_val ds \<le> 2 ^ 53 \<longrightarrow> parseInt (ds @ rest) = Finite (int (digits_val ds)))
      \<and> (2 ^ 1024 \<le> digits_val ds \<longrightarrow> parseInt (ds @ rest) = Infinity)
      \<and> (parseInt (ds @ rest) = Finite j \<longrightarrow>
           2 * \<bar>j - int (digits_val ds)\<bar> \<le> 2 ^ shift_of (digits_val ds))
      \<and> positive (parseInt (ds @ rest)) = (0 < digits_val ds))
   \<and> (positive x \<longrightarrow>
        count_list (coerce_ids ids) x = length (filter (\<lambda>v. parseInt (to_string v) = x) ids))
   \<and> (\<forall>n\<in>set (coerce_ids ids). n = Infinity \<or> (\<exists>i. n = Finite i \<and> 0 < i))
   \<and> (userIds b = Arr ids \<and> coerce_ids ids \<noteq> [] \<and> Infinity \<notin> set (coerce_ids ids) \<and>
       pending w = None \<longrightarrow>
        view (snd (deleteMultipleUsers b w)) =
          filter (\<lambda>r. \<not> id_in (coerce_ids ids) r) (store w))
   \<and> (userIds b = Arr ids \<and> coerce_ids ids \<noteq> [] \<and> Infinity \<notin> set (coerce_ids ids) \<and>
       pending w = None \<and>
       status_field b = Str st \<and> toLowerCase st \<in> set [''active'', ''blocked''] \<longrightarrow>
        view (snd (updateMultipleUsersStatus b w)) =
          map (\<lambda>r. if id_in (coerce_ids ids) r then r\<lparr>status := toLowerCase st\<rparr> else r) (store w))"
proof -
  have a: "parseInt (ds @ rest) = to_number (digits_val ds)
      \<and> (digits_val ds \<le> 2 ^ 53 \<longrightarrow> parseInt (ds @ rest) = Finite (int (digits_val ds)))
      \<and> (2 ^ 1024 \<le> digits_val ds \<longrightarrow> parseInt (ds @ rest) = Infinity)
      \<and> (parseInt (ds @ rest) = Finite j \<longrightarrow>
           2 * \<bar>j - int (digits_val ds)\<bar> \<le> 2 ^ shift_of (digits_val ds))
      \<and> positive (parseInt (ds @ rest)) = (0 < digits_val ds)"
    if h: "ds \<noteq> [] \<and> list_all is_digit ds \<and> (rest = [] \<or> \<not> is_digit (hd rest))"
  proof -
    have p: "parseInt (ds @ rest) = to_number (digits_val ds)"
      using h by (intro parseInt_prefix) simp_all
    show ?thesis
      unfolding p
      using to_number_exact[of "digits_val ds"] to_number_Infinity[of "digits_val ds"]
        to_number_nearest[of "digits_val ds" j] to_number_positive[of "digits_val ds"]
      by blast
  qed
  show ?thesis
    using a coerce_ids_count[of x ids] coerce_ids_positive[of _ ids]
        bulk_delete_uses_coerced_ids[of b ids w] bulk_update_uses_coerced_ids[of b ids w st]
    by blast
qed

theorem id_coercion_by_prefix_parsing_witness:
  "parseInt ''12abc'' = Finite 12
   \<and> coerce_ids [Str ''12abc'', Str ''abc'', Str ''0'', Str ''-7'', Num 12, Null]
       = [Finite 12, Finite 12]
   \<and> count_list (coerce_ids [Str ''12abc'', Str ''abc'', Str ''0'', Str ''-7'', Num 12, Null])
       (Finite 12) = 2
   \<and> view (snd (deleteMultipleUsers
              \<lparr>userIds = Arr [Str ''2abc'', Str ''x''], status_field = Undefined\<rparr>
              example_world)) = [ann, cyd]
   \<and> view (snd (updateMultipleUsersStatus
              \<lparr>userIds = Arr [Str ''1 '', Str ''3rd''], status_field = Str ''Blocked''\<rparr>
              example_world))
       = [ann\<lparr>status := ''blocked''\<rparr>, bob, cyd\<lparr>status := ''blocked''\<rparr>]"
proof -
  let ?ids = "[Str ''12abc'', Str ''abc'', Str ''0'', Str ''-7'', Num 12, Null]"
  let ?del = "\<lparr>userIds = Arr [Str ''2abc'', Str ''x''], status_field = Undefined\<rparr>"
  let ?upd = "\<lparr>userIds = Arr [Str ''1 '', Str ''3rd''], status_field = Str ''Blocked''\<rparr>"
  have n12: "to_number 12 = Finite 12" "to_number 0 = Finite 0" "to_number 7 = Finite 7"
            "to_number 1 = Finite 1" "to_number 2 = Finite 2" "to_number 3 = Finite 3"
            "to_number (Suc 0) = Finite 1"
    by (simp_all add: to_number_exact)
  have s12: "show_nat 12 = ''12''"
    by (simp add: show_nat.simps)
  have c: "coerce_ids ?ids = [Finite 12, Finite 12]"
          "coerce_ids [Str ''2abc'', Str ''x''] = [Finite 2]"
          "coerce_ids [Str ''1 '', Str ''3rd''] = [Finite 1, Finite 3]"
    by (simp_all add: parse_defs n12 s12)
  have p: "''12'' \<noteq> []" "list_all is_digit ''12''" "\<not> is_digit (hd ''abc'')" "digits_val ''12'' = 12"
    by (simp_all add: parse_defs)
  have n: "length (filter (\<lambda>v. parseInt (to_string v) = Finite 12) ?ids) = 2"
    by (simp add: parse_defs n12 s12)
  have l: "toLowerCase ''Blocked'' = ''blocked''"
    by (simp add: toLowerCase_def lower_char_def)
  have d: "filter (\<lambda>r. \<not> id_in [Finite 2] r) (store example_world) = [ann, cyd]"
    by (simp add: id_in_def example_defs)
  have m: "map (\<lambda>r. if id_in [Finite 1, Finite 3] r then r\<lparr>status := toLowerCase ''Blocked''\<rparr> else r)
             (store example_world) = [ann\<lparr>status := ''blocked''\<rparr>, bob, cyd\<lparr>status := ''blocked''\<rparr>]"
    by (simp add: id_in_def example_defs l)
  have idle: "pending example_world = None" by (simp add: example_world_def)
  have pos: "positive (Finite 12)" by (simp add: positive_def)
  note T1 = id_coercion_by_prefix_parsing
              [of "''12''" "''abc''" 12 "Finite 12" ?ids ?del example_world "''Blocked''"]
  note T2 = id_coercion_by_prefix_parsing
              [of "''12''" "''abc''" 12 "Finite 12" "[Str ''2abc'', Str ''x'']" ?del example_world
                  "''Blocked''"]
  note T3 = id_coercion_by_prefix_parsing
              [of "''12''" "''abc''" 12 "Finite 12" "[Str ''1 '', Str ''3rd'']" ?upd example_world
                  "''Blocked''"]
  from T1 p have 1: "parseInt ''12abc'' = Finite 12" by (simp add: n12)
  note C = T1[THEN conjunct2, THEN conjunct1, THEN mp, OF pos]
  from C have 2: "count_list (coerce_ids ?ids) (Finite 12) = 2" by (simp only: n)
  have hd: "userIds ?del = Arr [Str ''2abc'', Str ''x''] \<and> coerce_ids [Str ''2abc'', Str ''x''] \<noteq> [] \<and>
            Infinity \<notin> set (coerce_ids [Str ''2abc'', Str ''x'']) \<and> pending example_world = None"
    by (simp add: c idle)
  note D = T2[THEN conjunct2, THEN conjunct2, THEN conjunct2, THEN conjunct1, THEN mp, OF hd]
  from D have 3: "view (snd (deleteMultipleUsers ?del example_world)) = [ann, cyd]"
    by (simp only: c d)
  have hu: "userIds ?upd = Arr [Str ''1 '', Str ''3rd''] \<and> coerce_ids [Str ''1 '', Str ''3rd''] \<noteq> [] \<and>
            Infinity \<notin> set (coerce_ids [Str ''1 '', Str ''3rd'']) \<and> pending example_world = None \<and>
            status_field ?upd = Str ''Blocked'' \<and>
            toLowerCase ''Blocked'' \<in> set [''active'', ''blocked'']"
    by (simp add: c idle l)
  note U = T3[THEN conjunct2, THEN conjunct2, THEN conjunct2, THEN conjunct2, THEN mp, OF hu]
  from U have 4: "view (snd (updateMultipleUsersStatus ?upd example_world))
       = [ann\<lparr>status := ''blocked''\<rparr>, bob, cyd\<lparr>status := ''blocked''\<rparr>]"
    by (simp only: c m)
  show ?thesis using 1 2 3 4 c(1) by (intro conjI)
qed

text \<open>
  The claim as it is written has an entry that begins with the digits of a positive
  integer coerced to that integer. \<^verbatim>\<open>parseInt\<close> returns a double: the entry
  \<^verbatim>\<open>9007199254740993abc\<close> is coerced to 9007199254740992, and the operation acts on the
  user of that id, not on 9007199254740993.
\<close>

theorem id_coercion_counterexample:
  "list_all is_digit ''9007199254740993''
   \<and> digits_val ''9007199254740993'' = 9007199254740993
   \<and> parseInt ''9007199254740993abc'' = Finite 9007199254740992
   \<and> coerce_ids [Str ''9007199254740993abc''] = [Finite 9007199254740992]
   \<and> id_in (coerce_ids [Str ''9007199254740993abc'']) (ann\<lparr>id_col := 9007199254740992\<rparr>)
   \<and> \<not> id_in (coerce_ids [Str ''9007199254740993abc'']) (ann\<lparr>id_col := 9007199254740993\<rparr>)"
proof -
  have d: "digits_val ''9007199254740993'' = 9007199254740993"
    by (simp add: digits_val_def digit_val_def)
  have s: "shift_of 9007199254740993 = 1"
    by (simp add: shift_of_large shift_of_small)
  have t: "to_number 9007199254740993 = Finite 9007199254740992"
    by (simp add: to_number_def s Let_def)
  have p: "parseInt ''9007199254740993abc'' = Finite 9007199254740992"
    by (simp add: parseInt_def is_space_def is_digit_def Let_def d t)
  have c: "coerce_ids [Str ''9007199254740993abc''] = [Finite 9007199254740992]"
    by (simp add: coerce_ids_def p positive_def)
  show ?thesis
    by (simp add: d p c id_in_def is_digit_def)
qed

section \<open>Bulk operations that match no row\<close>

lemma no_match_count:
  "\<forall>r\<in>set t. \<not> id_in ids r \<Longrightarrow> length (filter (id_in ids) t) = 0"
  by (simp add: filter_empty_conv)

lemma no_match_delete:
  "\<forall>r\<in>set t. \<not> id_in ids r \<Longrightarrow> filter (\<lambda>r. \<not> id_in ids r) t = t"
  by (simp add: filter_id_conv)

lemma no_match_update:
  "\<forall>r\<in>set t. \<not> id_in ids r \<Longrightarrow> map (\<lambda>r. if id_in ids r then r\<lparr>status := st\<rparr> else r) t = t"
  by (induction t) auto

text \<open>
  The status update that matches no row commits its transaction and answers 404; the
  table is as it was.
\<close>

lemma bulk_update_zero_match_commits:
  assumes "userIds b = Arr ids" and "coerce_ids ids \<noteq> []" and "Infinity \<notin> set (coerce_ids ids)"
    and "pending w = None"
    and "status_field b = Str st" and "toLowerCase st \<in> set [''active'', ''blocked'']"
    and "\<forall>r\<in>set (store w). \<not> id_in (coerce_ids ids) r"
  shows "updateMultipleUsersStatus b w =
           (respond 404
              [(''message'', Str ''No users found matching the provided IDs for status update.'')],
            w\<lparr>trace := trace w @ [GetConnection, BeginTransaction, Commit, Release]\<rparr>)"
proof -
  have "ids \<noteq> []" using assms(2) by (auto simp: coerce_ids_def)
  moreover have "st \<noteq> []" using assms(6) by (auto simp: toLowerCase_def)
  ultimately show ?thesis
    using assms(1-6) no_match_count[OF assms(7)] no_match_update[OF assms(7)]
    by (simp add: updateMultipleUsersStatus_def updateStatusForMultipleUsersInDB_def conn_defs
          Let_def)
qed

text \<open>Both operations commit and report the number of rows when at least one row matches.\<close>

lemma bulk_delete_match_commits:
  assumes "userIds b = Arr ids" and "coerce_ids ids \<noteq> []" and "Infinity \<notin> set (coerce_ids ids)"
    and "pending w = None"
    and "\<exists>r\<in>set (store w). id_in (coerce_ids ids) r"
  shows "deleteMultipleUsers b w =
           (respond 200
              [(''message'', Str (''Successfully deleted '' @
                  show_nat (length (filter (id_in (coerce_ids ids)) (store w))) @ '' user(s).''))],
            w\<lparr>store := filter (\<lambda>r. \<not> id_in (coerce_ids ids) r) (store w),
              trace := trace w @ [GetConnection, BeginTransaction, Commit, Release]\<rparr>)"
proof -
  have "ids \<noteq> []" using assms(2) by (auto simp: coerce_ids_def)
  moreover have "filter (id_in (coerce_ids ids)) (store w) \<noteq> []"
    using assms(5) by (simp add: filter_empty_conv)
  ultimately show ?thesis
    using assms(1-4)
    by (simp add: deleteMultipleUsers_def deleteMultipleUsersFromDB_def conn_defs Let_def)
qed

lemma bulk_update_match_commits:
  assumes "userIds b = Arr ids" and "coerce_ids ids \<noteq> []" and "Infinity \<notin> set (coerce_ids ids)"
    and "pending w = None"
    and "status_field b = Str st" and "toLowerCase st \<in> set [''active'', ''blocked'']"
    and "\<exists>r\<in>set (store w). id_in (coerce_ids ids) r"
  shows "updateMultipleUsersStatus b w =
           (respond 200
              [(''message'', Str (''Successfully updated status to '' @ [CHR 0x27] @
                  toLowerCase st @ [CHR 0x27] @ '' for '' @
                  show_nat (length (filter (id_in (coerce_ids ids)) (store w))) @ '' user(s).''))],
            w\<lparr>store := map (\<lambda>r. if id_in (coerce_ids ids) r then r\<lparr>status := toLowerCase st\<rparr> else r)
                         (store w),
              trace := trace w @ [GetConnection, BeginTransaction, Commit, Release]\<rparr>)"
proof -
  have "ids \<noteq> []" using assms(2) by (auto simp: coerce_ids_def)
  moreover have "st \<noteq> []" using assms(6) by (auto simp: toLowerCase_def)
  moreover have "filter (id_in (coerce_ids ids)) (store w) \<noteq> []"
    using assms(7) by (simp add: filter_empty_conv)
  ultimately show ?thesis
    using assms(1-6)
    by (simp add: updateMultipleUsersStatus_def updateStatusForMultipleUsersInDB_def conn_defs
          Let_def)
qed

text \<open>
  C1. The deletion that matches no row answers 404 and leaves the table as it was, but
  it returns from inside the \<^verbatim>\<open>try\<close> block before \<^verbatim>\<open>commit\<close> and without calling
  \<^verbatim>\<open>rollback\<close>: the connection goes back to the pool with the transaction still open.
  (Only when an entry was read as \<^verbatim>\<open>Infinity\<close> does the statement fail instead, and the
  \<^verbatim>\<open>catch\<close> block rolls back and answers 500.)
\<close>

theorem bulk_delete_zero_match_no_rollback:
  assumes "userIds b = Arr ids" and "coerce_ids ids \<noteq> []" and "pending w = None"
    and "\<forall>r\<in>set (store w). \<not> id_in (coerce_ids ids) r"
  shows "deleteMultipleUsers b w =
           (if Infinity \<in> set (coerce_ids ids)
            then (respond 500 [(''message'', Str ''An error occurred while deleting users.'')],
                  w\<lparr>trace := trace w @ [GetConnection, BeginTransaction, Rollback, Release]\<rparr>)
            else (respond 404
                    [(''message'', Str ''No users found matching the provided IDs for deletion, or no valid IDs were provided.'')],
                  w\<lparr>pending := Some (store w),
                    trace := trace w @ [GetConnection, BeginTransaction, Release]\<rparr>))"
proof (cases "Infinity \<in> set (coerce_ids ids)")
  case True
  then show ?thesis
    using bulk_delete_Infinity[OF assms(1) True assms(3)] by simp
next
  case False
  have "ids \<noteq> []" using assms(2) by (auto simp: coerce_ids_def)
  then show ?thesis
    using assms(1-3) False no_match_count[OF assms(4)] no_match_delete[OF assms(4)]
    by (simp add: deleteMultipleUsers_def deleteMultipleUsersFromDB_def conn_defs Let_def)
qed

theorem bulk_delete_zero_match_no_rollback_witness:
  "deleteMultipleUsers \<lparr>userIds = Arr [Str ''999''], status_field = Undefined\<rparr> example_world =
     (respond 404
        [(''message'', Str ''No users found matching the provided IDs for deletion, or no valid IDs were provided.'')],
      example_world\<lparr>pending := Some [ann, bob, cyd],
                    trace := [GetConnection, BeginTransaction, Release]\<rparr>)
   \<and> Rollback \<notin> set [GetConnection, BeginTransaction, Release]"
proof -
  let ?b = "\<lparr>userIds = Arr [Str ''999''], status_field = Undefined\<rparr>"
  have n: "to_number 999 = Finite 999" by (simp add: to_number_exact)
  have c: "coerce_ids [Str ''999''] = [Finite 999]" by (simp add: parse_defs n)
  have h: "userIds ?b = Arr [Str ''999'']" "coerce_ids [Str ''999''] \<noteq> []" "pending example_world = None"
          "\<forall>r\<in>set (store example_world). \<not> id_in (coerce_ids [Str ''999'']) r"
    by (simp_all add: c id_in_def example_defs)
  have i: "Infinity \<notin> set (coerce_ids [Str ''999''])" by (simp add: c)
  have s: "store example_world = [ann, bob, cyd]" "trace example_world = []"
    by (simp_all add: example_world_def)
  from bulk_delete_zero_match_no_rollback[OF h]
  have "deleteMultipleUsers ?b example_world =
     (respond 404
        [(''message'', Str ''No users found matching the provided IDs for deletion, or no valid IDs were provided.'')],
      example_world\<lparr>pending := Some [ann, bob, cyd],
                    trace := [GetConnection, BeginTransaction, Release]\<rparr>)"
    by (simp only: i if_False s append_Nil)
  then show ?thesis by simp
qed

section \<open>Expired tokens\<close>

text \<open>
  C6. A request whose header starts with \<^verbatim>\<open>Bearer\<close> and carries a token that decodes
  and whose expiry \<open>e\<close> (in seconds) the clock has reached is answered 401 with the
  message for an expired token, before any connection is taken. The date in the message
  is the one \<^verbatim>\<open>new Date(error.expiredAt * 1000)\<close> prints, where \<^verbatim>\<open>error.expiredAt\<close> is already
  the \<^verbatim>\<open>Date\<close> of the expiry: the instant \<open>e * 1000 * 1000\<close> milliseconds, not the expiry
  \<open>e * 1000\<close>.
\<close>

theorem expired_token_rejection:
  assumes "startsWith h ''Bearer''" and "at_index (split_on CHR '' '' h) 1 = Some tok"
    and "tok \<noteq> []" and "jwt_decode cp tok = Some payload"
    and "fld payload ''exp'' = Num e" and "e \<le> clock cp"
  shows "jwt_verify cp (Some tok) =
           JwtThrows \<lparr>err_name = ''TokenExpiredError'', expiredAt = Some (e * 1000)\<rparr>
       \<and> protect cp (Some h) w =
           (Rejected (respond 401
              [(''message'', Str (''Not authorized, token expired at '' @
                                  new_Date_string cp (e * 1000 * 1000)))]), w)"
proof -
  have "h \<noteq> []" using assms(1) by (auto simp: startsWith_def)
  have v: "jwt_verify cp (Some tok) =
           JwtThrows \<lparr>err_name = ''TokenExpiredError'', expiredAt = Some (e * 1000)\<rparr>"
    using assms(3-6) by (simp add: jwt_verify_def falsy_def or_empty_def)
  show ?thesis
    using assms(1,2) \<open>h \<noteq> []\<close> v
    by (simp add: protect_def protect_catch_def falsy_def or_empty_def)
qed

theorem expired_token_rejection_witness:
  "protect example_caps (Some ''Bearer old.token'') example_world =
     (Rejected (respond 401
        [(''message'', Str ''Not authorized, token expired at another instant'')]), example_world)
   \<and> jwt_verify example_caps (Some ''old.token'') =
       JwtThrows \<lparr>err_name = ''TokenExpiredError'', expiredAt = Some 1700000000000\<rparr>
   \<and> new_Date_string example_caps 1700000000000 = ''Tue Nov 14 2023 22:13:20 GMT+0000''"
proof -
  let ?payload = "[(''userId'', Num 1), (''email'', Str ''ann@x.io''),
                   (''iat'', Num 1699999400), (''exp'', Num 1700000000)]"
  have h: "startsWith ''Bearer old.token'' ''Bearer''"
          "at_index (split_on CHR '' '' ''Bearer old.token'') 1 = Some ''old.token''"
          "''old.token'' \<noteq> []"
          "jwt_decode example_caps ''old.token'' = Some ?payload"
          "fld ?payload ''exp'' = Num 1700000000" "1700000000 \<le> clock example_caps"
    by (simp_all add: startsWith_def at_index_def example_defs fld_def)
  have d: "new_Date_string example_caps 1700000000000000 = ''another instant''"
          "new_Date_string example_caps 1700000000000 = ''Tue Nov 14 2023 22:13:20 GMT+0000''"
    by (simp_all add: new_Date_string_def example_caps_def)
  from expired_token_rejection[OF h, of example_world]
  show ?thesis by (simp add: d)
qed

section \<open>Confidentiality of the stored digests\<close>

lemma col_digest:
  "c \<noteq> ''password_hash'' \<Longrightarrow> col c (r\<lparr>password_hash := x\<rparr>) = col c r"
  by (simp add: col_def)

lemma view_redigest: "view (redigest_world f w) = redigest f (view w)"
  by (simp add: view_def redigest_world_def split: option.splits)

lemma next_id_redigest: "next_id (redigest_world f w) = next_id w"
  by (simp add: redigest_world_def)

lemma filter_redigest:
  assumes "\<And>r x. P (r\<lparr>password_hash := x\<rparr>) = P r"
  shows "filter P (redigest f t) = redigest f (filter P t)"
  by (induction t) (simp_all add: redigest_def assms)

lemma length_redigest: "length (redigest f t) = length t"
  by (simp add: redigest_def)

lemma find_redigest:
  "findUserByEmailInDB e (redigest f t) =
     (case filter (\<lambda>r. email r = e) t of
        [] \<Rightarrow> None
      | r # _ \<Rightarrow> Some (select loginColumns (r\<lparr>password_hash := f (password_hash r)\<rparr>)))"
proof -
  have "filter (\<lambda>r. email r = e) (redigest f t) = redigest f (filter (\<lambda>r. email r = e) t)"
    by (rule filter_redigest) simp
  then show ?thesis
    by (simp add: findUserByEmailInDB_def redigest_def split: list.splits)
qed

lemma auth_redigest: "getUserForAuth v (redigest f t) = getUserForAuth v t"
proof -
  have "filter (id_is v) (redigest f t) = redigest f (filter (id_is v) t)"
    by (rule filter_redigest) (simp add: id_is_def)
  moreover have "select authColumns (r\<lparr>password_hash := x\<rparr>) = select authColumns r" for r x
    by (simp add: select_def authColumns_def col_def)
  ultimately show ?thesis
    by (simp add: getUserForAuth_def redigest_def split: list.splits)
qed

lemma check_redigest: "checkEmailAvailability e (redigest f t) = checkEmailAvailability e t"
proof -
  have "filter (\<lambda>r. email r = e) (redigest f t) = redigest f (filter (\<lambda>r. email r = e) t)"
    by (rule filter_redigest) simp
  then show ?thesis
    by (simp add: checkEmailAvailability_def length_redigest)
qed

lemma sortBy_not_digest: "effectiveSortBy sb \<noteq> ''password_hash''"
  by (auto simp: effectiveSortBy_def allowedSortBy_def split: val.splits)

lemma row_le_digest:
  assumes "k \<noteq> ''password_hash''"
  shows "row_le (orderByTerms k d) (a\<lparr>password_hash := x\<rparr>) (b\<lparr>password_hash := y\<rparr>)
         = row_le (orderByTerms k d) a b"
  using assms by (simp add: orderByTerms_def col_digest)

lemma insert_row_redigest:
  assumes "\<And>a b x y. row_le ts (a\<lparr>password_hash := x\<rparr>) (b\<lparr>password_hash := y\<rparr>) = row_le ts a b"
  shows "insert_row ts (r\<lparr>password_hash := f (password_hash r)\<rparr>) (redigest f t)
         = redigest f (insert_row ts r t)"
  by (induction t) (simp_all add: redigest_def assms)

lemma order_by_redigest:
  assumes "\<And>a b x y. row_le ts (a\<lparr>password_hash := x\<rparr>) (b\<lparr>password_hash := y\<rparr>) = row_le ts a b"
  shows "order_by ts (redigest f t) = redigest f (order_by ts t)"
proof (induction t)
  case Nil
  then show ?case by (simp add: order_by_def redigest_def)
next
  case (Cons r t)
  have "order_by ts (redigest f (r # t))
        = insert_row ts (r\<lparr>password_hash := f (password_hash r)\<rparr>) (order_by ts (redigest f t))"
    by (simp add: order_by_def redigest_def)
  also have "\<dots> = insert_row ts (r\<lparr>password_hash := f (password_hash r)\<rparr>)
                     (redigest f (order_by ts t))"
    using Cons by simp
  also have "\<dots> = redigest f (insert_row ts r (order_by ts t))"
    by (rule insert_row_redigest) (rule assms)
  finally show ?case by (simp add: order_by_def)
qed

lemma fetch_redigest:
  "fetchAllUsersFromDB sb so (redigest f t) = fetchAllUsersFromDB sb so t"
proof (cases "effectiveSortOrder so")
  case None
  then show ?thesis by (simp add: fetchAllUsersFromDB_def)
next
  case (Some d)
  have sel: "select columnsToSelect (r\<lparr>password_hash := x\<rparr>) = select columnsToSelect r" for r x
    by (simp add: select_def columnsToSelect_def col_def)
  have "order_by (orderByTerms (effectiveSortBy sb) d) (redigest f t)
        = redigest f (order_by (orderByTerms (effectiveSortBy sb) d) t)"
    by (rule order_by_redigest) (rule row_le_digest[OF sortBy_not_digest])
  then show ?thesis
    by (simp add: fetchAllUsersFromDB_def Some redigest_def sel)
qed

lemma id_in_digest: "id_in ids (r\<lparr>password_hash := x\<rparr>) = id_in ids r"
  by (simp add: id_in_def)

lemma delete_redigest:
  "deleteMultipleUsersFromDB ids (redigest f t) =
     map_option (\<lambda>(n, t'). (n, redigest f t')) (deleteMultipleUsersFromDB ids t)"
  by (simp add: deleteMultipleUsersFromDB_def filter_redigest[OF id_in_digest] length_redigest
        filter_redigest[where P = "\<lambda>r. \<not> id_in ids r"] id_in_digest)

lemma update_redigest:
  "updateStatusForMultipleUsersInDB ids st (redigest f t) =
     map_option (\<lambda>(n, t'). (n, redigest f t')) (updateStatusForMultipleUsersInDB ids st t)"
proof -
  have m: "map (\<lambda>r. if id_in ids r then r\<lparr>status := st\<rparr> else r) (redigest f t)
         = redigest f (map (\<lambda>r. if id_in ids r then r\<lparr>status := st\<rparr> else r) t)"
    by (induction t) (simp_all add: redigest_def id_in_digest)
  show ?thesis
    by (simp add: updateStatusForMultipleUsersInDB_def filter_redigest[OF id_in_digest]
          length_redigest m)
qed

lemma login_redigest:
  assumes "\<And>p d. bcrypt_compare cp' p (f d) = bcrypt_compare cp p d"
    and "jwt_sign cp' = jwt_sign cp" and "sql_text cp' = sql_text cp"
  shows "fst (loginUser cp' b (redigest_world f w)) = fst (loginUser cp b w)"
proof (cases "sql_text cp (b ''email'')")
  case None
  then show ?thesis
    by (simp add: loginUser_def login_catch_def assms(3) Let_def split: option.splits)
next
  case (Some e)
  show ?thesis
  proof (cases "filter (\<lambda>r. email r = e) (view w)")
    case Nil
    have A: "findUserByEmailInDB e
               (view (beginTransaction (getConnection (redigest_world f w)))) = None"
      by (simp add: view_begin view_redigest find_redigest Nil)
    have B: "findUserByEmailInDB e (view (beginTransaction (getConnection w))) = None"
      by (simp add: view_begin findUserByEmailInDB_def Nil)
    show ?thesis
      by (simp add: loginUser_def login_catch_def assms(3) Some A B Let_def split: option.splits)
  next
    case (Cons r rs)
    have A: "findUserByEmailInDB e
               (view (beginTransaction (getConnection (redigest_world f w))))
             = Some (select loginColumns (r\<lparr>password_hash := f (password_hash r)\<rparr>))"
      by (simp add: view_begin view_redigest find_redigest Cons)
    have B: "findUserByEmailInDB e
               (view (beginTransaction (getConnection w))) = Some (select loginColumns r)"
      by (simp add: view_begin findUserByEmailInDB_def Cons)
    show ?thesis
      using assms(1,2)
      by (cases "b ''password''")
         (simp_all add: loginUser_def login_catch_def assms(3) Some A B fld_login Let_def
            split: option.splits)
  qed
qed

lemma insert_redigest:
  assumes "sql_text cp' = sql_text cp" and "next_id w' = next_id w"
  shows "map_option fst (insertNewUser cp' fn ln e h' jt co w')
       = map_option fst (insertNewUser cp fn ln e h jt co w)"
  using assms
  by (simp add: insertNewUser_def sql_text_or_null_def Let_def split: option.splits)

lemma register_redigest:
  assumes "jwt_sign cp' = jwt_sign cp" and "sql_text cp' = sql_text cp"
    and "bcrypt_message cp' = bcrypt_message cp" and "driver_message cp' = driver_message cp"
  shows "fst (registerUser cp' b (redigest_world f w)) = fst (registerUser cp b w)"
proof -
  let ?w1 = "beginTransaction (getConnection w)"
  let ?w1' = "beginTransaction (getConnection (redigest_world f w))"
  have c: "checkEmailAvailability e (view ?w1') = checkEmailAvailability e (view ?w1)" for e
    by (simp add: view_begin view_redigest check_redigest)
  have n: "next_id ?w1' = next_id ?w1"
    by (simp add: conn_defs redigest_world_def)
  have i: "map_option fst (insertNewUser cp' fn ln e h' jt co ?w1')
         = map_option fst (insertNewUser cp fn ln e h jt co ?w1)" for fn ln e h h' jt co
    by (rule insert_redigest[OF assms(2) n])
  have d: "driver_error cp' = driver_error cp"
    by (simp add: driver_error_def assms(4))
  show ?thesis
  proof (cases "ensureRequiredFieldsPresent b [''first_name'', ''last_name'', ''email'', ''password'']")
    case (Some err)
    then show ?thesis by (simp add: registerUser_def register_catch_def)
  next
    case None
    note ens = None
    show ?thesis
    proof (cases "validateEmailFormat (b ''email'')")
      case (Some err)
      then show ?thesis using ens by (simp add: registerUser_def register_catch_def)
    next
      case None
      note val = None
      show ?thesis
      proof (cases "sql_text cp (b ''email'')")
        case None
        then show ?thesis
          using ens val by (simp add: registerUser_def register_catch_def assms(2) d Let_def)
      next
        case (Some e)
        note em = Some
        show ?thesis
        proof (cases "checkEmailAvailability e (view ?w1)")
          case (Some err)
          then show ?thesis
            using ens val em by (simp add: registerUser_def register_catch_def assms(2) c Let_def)
        next
          case None
          note free = None
          show ?thesis
          proof (cases "b ''password''")
            case (Str p)
            let ?ins = "insertNewUser cp (b ''first_name'') (b ''last_name'') e (bcrypt_hash cp p)
                          (b ''job_title'') (b ''company'') ?w1"
            let ?ins' = "insertNewUser cp' (b ''first_name'') (b ''last_name'') e (bcrypt_hash cp' p)
                          (b ''job_title'') (b ''company'') ?w1'"
            have ii: "map_option fst ?ins' = map_option fst ?ins" by (rule i)
            show ?thesis
            proof (cases ?ins)
              case None
              with ii have "?ins' = None" by simp
              then show ?thesis
                using ens val em free Str None
                by (simp add: registerUser_def register_catch_def assms(2) c d Let_def)
            next
              case (Some r)
              obtain uid w2 where r: "r = (uid, w2)" by (cases r)
              from ii Some r obtain w2' where "?ins' = Some (uid, w2')"
                by (cases ?ins') auto
              then show ?thesis
                using ens val em free Str Some r
                by (simp add: registerUser_def assms(1,2) c Let_def)
            qed
          qed (simp_all add: registerUser_def register_catch_def assms(2,3) c ens val em free Let_def)
        qed
      qed
    qed
  qed
qed

lemma list_redigest:
  "fst (getAllUsers sb so (redigest_world f w)) = fst (getAllUsers sb so w)"
proof -
  have "view (getConnection (redigest_world f w)) = redigest f (view (getConnection w))"
    by (simp add: view_getConnection view_redigest)
  then show ?thesis
    by (simp add: getAllUsers_def Let_def fetch_redigest split: option.splits)
qed

lemma bulk_update_redigest:
  "fst (updateMultipleUsersStatus bb (redigest_world f w)) = fst (updateMultipleUsersStatus bb w)"
proof -
  have "updateStatusForMultipleUsersInDB ids st
               (view (beginTransaction (getConnection (redigest_world f w))))
      = map_option (\<lambda>(n, t'). (n, redigest f t'))
          (updateStatusForMultipleUsersInDB ids st (view (beginTransaction (getConnection w))))"
    for ids st
    by (simp add: view_begin view_redigest update_redigest)
  then show ?thesis
    by (cases "userIds bb"; cases "status_field bb")
       (simp_all add: updateMultipleUsersStatus_def update_catch_def Let_def
          split: option.splits prod.splits)
qed

lemma bulk_delete_redigest:
  "fst (deleteMultipleUsers bb (redigest_world f w)) = fst (deleteMultipleUsers bb w)"
proof -
  have "deleteMultipleUsersFromDB ids
               (view (beginTransaction (getConnection (redigest_world f w))))
      = map_option (\<lambda>(n, t'). (n, redigest f t'))
          (deleteMultipleUsersFromDB ids (view (beginTransaction (getConnection w))))" for ids
    by (simp add: view_begin view_redigest delete_redigest)
  then show ?thesis
    by (cases "userIds bb")
       (simp_all add: deleteMultipleUsers_def delete_catch_def Let_def
          split: option.splits prod.splits)
qed

lemma protect_redigest:
  assumes "jwt_decode cp' = jwt_decode cp" and "clock cp' = clock cp"
    and "Date_toString cp' = Date_toString cp"
  shows "fst (protect cp' h (redigest_world f w)) = fst (protect cp h w)"
proof -
  have v: "jwt_verify cp' = jwt_verify cp"
    using assms by (auto simp: jwt_verify_def fun_eq_iff split: option.splits val.splits)
  have d: "new_Date_string cp' = new_Date_string cp"
    using assms by (simp add: new_Date_string_def fun_eq_iff)
  have c: "protect_catch cp' = protect_catch cp"
    by (rule ext) (simp add: protect_catch_def d split: option.splits)
  have g: "view (getConnection (redigest_world f w)) = redigest f (view (getConnection w))"
    by (simp add: view_getConnection view_redigest)
  show ?thesis
    by (simp add: protect_def v c g auth_redigest Let_def split: jwt_result.splits option.splits)
qed

text \<open>
  C8. Neither the query of the middleware nor the query of the listing selects the
  column \<^verbatim>\<open>password_hash\<close>. What each operation answers, on success or on error, and what
  the middleware answers or attaches to the request, does not change when every stored
  digest \<open>d\<close> is replaced by \<open>f d\<close> (for any \<open>f\<close>) and the hashing capability by any other one
  whose comparison gives on \<open>f d\<close> what the original gives on \<open>d\<close>: the responses depend on
  the stored digests only through the outcome of \<^verbatim>\<open>bcrypt.compare\<close>, and not at all on the
  digest that registration computes.
\<close>

theorem digest_confidentiality:
  assumes "\<forall>p d. compare' p (f d) = bcrypt_compare cp p d"
    and "cp' = cp\<lparr>bcrypt_hash := hash', bcrypt_compare := compare'\<rparr>"
  shows "''password_hash'' \<notin> set columnsToSelect \<and> ''password_hash'' \<notin> set authColumns
       \<and> fst (registerUser cp' b (redigest_world f w)) = fst (registerUser cp b w)
       \<and> fst (loginUser cp' b (redigest_world f w)) = fst (loginUser cp b w)
       \<and> fst (getAllUsers sb so (redigest_world f w)) = fst (getAllUsers sb so w)
       \<and> fst (updateMultipleUsersStatus bb (redigest_world f w)) = fst (updateMultipleUsersStatus bb w)
       \<and> fst (deleteMultipleUsers bb (redigest_world f w)) = fst (deleteMultipleUsers bb w)
       \<and> fst (protect cp' h (redigest_world f w)) = fst (protect cp h w)"
proof -
  have s: "jwt_sign cp' = jwt_sign cp"
    by (rule ext) (simp add: jwt_sign_def assms(2))
  have q: "sql_text cp' = sql_text cp"
    by (intro ext) (simp add: sql_text_def assms(2) split: val.splits)
  have m: "bcrypt_message cp' = bcrypt_message cp" "driver_message cp' = driver_message cp"
    by (simp_all add: assms(2))
  have c: "\<And>p d. bcrypt_compare cp' p (f d) = bcrypt_compare cp p d"
    using assms by simp
  have cols: "''password_hash'' \<notin> set columnsToSelect" "''password_hash'' \<notin> set authColumns"
    by (simp_all add: columnsToSelect_def authColumns_def)
  have p: "fst (protect cp' h (redigest_world f w)) = fst (protect cp h w)"
    by (rule protect_redigest) (simp_all add: assms(2))
  show ?thesis
    using cols register_redigest[OF s q m] login_redigest[OF c s q] list_redigest bulk_update_redigest
          bulk_delete_redigest p
    by blast
qed

theorem digest_confidentiality_witness:
  "map password_hash (store (redigest_world ((#) CHR ''x'') example_world))
     = [''x#pw-ann'', ''x#pw-bob'', ''x#pw-cyd'']
   \<and> fst (loginUser
            (example_caps\<lparr>bcrypt_hash := (\<lambda>p. ''x#'' @ p),
                          bcrypt_compare := (\<lambda>p d. d = ''x#'' @ p)\<rparr>)
            (no_fields(''email'' := Str ''ann@x.io'', ''password'' := Str ''pw-ann''))
            (redigest_world ((#) CHR ''x'') example_world))
     = fst (loginUser example_caps (no_fields(''email'' := Str ''ann@x.io'', ''password'' := Str ''pw-ann''))
            example_world)
   \<and> fst (getAllUsers Undefined Undefined (redigest_world ((#) CHR ''x'') example_world))
     = fst (getAllUsers Undefined Undefined example_world)
   \<and> fst (protect
            (example_caps\<lparr>bcrypt_hash := (\<lambda>p. ''x#'' @ p),
                          bcrypt_compare := (\<lambda>p d. d = ''x#'' @ p)\<rparr>)
            (Some ''Bearer bob.token'') (redigest_world ((#) CHR ''x'') example_world))
     = fst (protect example_caps (Some ''Bearer bob.token'') example_world)"
proof -
  let ?cp' = "example_caps\<lparr>bcrypt_hash := (\<lambda>p. ''x#'' @ p),
                          bcrypt_compare := (\<lambda>p d. d = ''x#'' @ p)\<rparr>"
  have a: "\<forall>p d. (\<lambda>p d. d = ''x#'' @ p) p ((#) CHR ''x'' d) = bcrypt_compare example_caps p d"
    by (simp add: example_caps_def)
  have m: "map password_hash (store (redigest_world ((#) CHR ''x'') example_world))
     = [''x#pw-ann'', ''x#pw-bob'', ''x#pw-cyd'']"
    by (simp add: redigest_world_def redigest_def example_defs)
  note T = digest_confidentiality[of "\<lambda>p d. d = ''x#'' @ p" "(#) CHR ''x''" example_caps ?cp'
     "\<lambda>p. ''x#'' @ p"
     "no_fields(''email'' := Str ''ann@x.io'', ''password'' := Str ''pw-ann'')" example_world
     Undefined Undefined
     "\<lparr>userIds = Undefined, status_field = Undefined\<rparr>" "Some ''Bearer bob.token''"]
  show ?thesis using T[OF a refl] m by blast
qed


end
